theory Spec2Isabelle
  imports Complex_Main "HOL-Library.Multiset" "HOL-Library.Sublist"
begin

section \<open>JavaScript values read by the component\<close>

text \<open>
  \<^verbatim>\<open>ReportView\<close> (src/frontend/src/components/ReportView.js) receives one prop,
  \<^verbatim>\<open>report\<close>, which is whatever the caller passes: a parsed JSON document, or
  \<^verbatim>\<open>null\<close>/\<^verbatim>\<open>undefined\<close> before an upload. The embedding therefore works
  on untyped JavaScript values.

  \<^item> A number is a finite double read as a real, or \<open>NaN\<close> (\<open>JNaN\<close>); \<open>-0\<close> is
    identified with \<open>0\<close> (both are falsy).
  \<^item> A string is its sequence of code units.
  \<^item> An array is the list of its elements.
  \<^item> A plain object is the list of its own properties \<^emph>\<open>in the order in which they
    were created\<close> (for a parsed JSON document: the order of the members in the text);
    a well-formed object has no key twice.

  Functions, symbols, big integers and the infinities are not values of the embedding.
  The built-in prototypes are taken as the language defines them (no member added or
  removed by other code).
\<close>

datatype jsval =
    JUndefined
  | JNull
  | JBool bool
  | JNum real
  | JNaN
  | JStr string
  | JArr "jsval list"
  | JObj "(string \<times> jsval) list"

text \<open>
  What the component can raise. Every fault of the source is a \<^verbatim>\<open>TypeError\<close>
  (a property read on \<^verbatim>\<open>undefined\<close>/\<^verbatim>\<open>null\<close>,
  \<^verbatim>\<open>Object.keys\<close> of \<^verbatim>\<open>undefined\<close>/\<^verbatim>\<open>null\<close>, a call of something
  that is not a function). \<open>OutsideModel\<close> is not a fault of the source: it marks the one
  place where the source's result depends on a coercion the embedding does not compute
  (\<open>gt_zero\<close> on a string, an array or an object).
\<close>

datatype error = TypeError | OutsideModel

definition and_then :: "error + 'a \<Rightarrow> ('a \<Rightarrow> error + 'b) \<Rightarrow> error + 'b" where
  "and_then r f = (case r of Inl e \<Rightarrow> Inl e | Inr x \<Rightarrow> f x)"

text \<open>\<^verbatim>\<open>ToBoolean\<close>, as used by \<^verbatim>\<open>!report\<close> and by \<^verbatim>\<open>||\<close>.\<close>

fun truthy :: "jsval \<Rightarrow> bool" where
  "truthy JUndefined = False"
| "truthy JNull = False"
| "truthy (JBool b) = b"
| "truthy (JNum n) = (n \<noteq> 0)"
| "truthy JNaN = False"
| "truthy (JStr s) = (s \<noteq> [])"
| "truthy (JArr xs) = True"
| "truthy (JObj ps) = True"

text \<open>The values at which \<^verbatim>\<open>?.\<close> short-circuits and a property read throws.\<close>

fun nullish :: "jsval \<Rightarrow> bool" where
  "nullish JUndefined = True"
| "nullish JNull = True"
| "nullish v = False"

text \<open>\<^verbatim>\<open>a || b\<close>.\<close>

definition js_or :: "jsval \<Rightarrow> jsval \<Rightarrow> jsval" where
  "js_or a b = (if truthy a then a else b)"

subsection \<open>Array indices as property keys\<close>

text \<open>
  A property key is an array index when it is the canonical decimal numeral of an integer
  below \<open>2^32 - 1\<close>: digits only, no leading zero except for \<^verbatim>\<open>"0"\<close> itself.
\<close>

definition digit_val :: "char \<Rightarrow> nat option" where
  "digit_val c =
     map_of [(CHR ''0'', 0), (CHR ''1'', 1), (CHR ''2'', 2), (CHR ''3'', 3), (CHR ''4'', 4),
             (CHR ''5'', 5), (CHR ''6'', 6), (CHR ''7'', 7), (CHR ''8'', 8), (CHR ''9'', 9)] c"

fun parse_digits :: "nat \<Rightarrow> string \<Rightarrow> nat option" where
  "parse_digits acc [] = Some acc"
| "parse_digits acc (c # cs) =
     (case digit_val c of None \<Rightarrow> None | Some d \<Rightarrow> parse_digits (10 * acc + d) cs)"

definition array_index :: "string \<Rightarrow> nat option" where
  "array_index k =
     (case k of
        [] \<Rightarrow> None
      | c # cs \<Rightarrow>
          if c = CHR ''0'' \<and> cs \<noteq> [] then None
          else (case parse_digits 0 k of
                  None \<Rightarrow> None
                | Some n \<Rightarrow> if n < 4294967295 then Some n else None))"

definition is_index :: "string \<Rightarrow> bool" where
  "is_index k = (array_index k \<noteq> None)"

definition index_val :: "string \<Rightarrow> nat" where
  "index_val k = (case array_index k of None \<Rightarrow> 0 | Some n \<Rightarrow> n)"

text \<open>The decimal digit \<open>d\<close>; applied to \<open>d < 10\<close> only.\<close>

definition digit_char :: "nat \<Rightarrow> char" where
  "digit_char d = (if d < 10 then ''0123456789'' ! d else CHR ''9'')"

text \<open>\<^verbatim>\<open>ToString\<close> of a non-negative integer: the keys of an array's elements.\<close>

fun show_nat :: "nat \<Rightarrow> string" where
  "show_nat n = (if n < 10 then [digit_char n] else show_nat (n div 10) @ [digit_char (n mod 10)])"

subsection \<open>Property reads, Object.keys, Array.prototype.map\<close>

text \<open>
  \<open>get_own v k\<close> is the own property \<open>k\<close> of a value \<open>v\<close> that is neither
  \<^verbatim>\<open>undefined\<close> nor \<^verbatim>\<open>null\<close>, and \<^verbatim>\<open>undefined\<close> when \<open>v\<close> has no
  such own property. The component uses it for the names it writes out: the ten names of
  the destructuring, \<^verbatim>\<open>feature_importances\<close>, \<^verbatim>\<open>feature\<close>,
  \<^verbatim>\<open>importance\<close> and \<^verbatim>\<open>length\<close>. No built-in prototype has a member under one
  of these names (\<^verbatim>\<open>length\<close> is an own property of arrays and strings), so for them
  the own property is what \<^verbatim>\<open>v.k\<close> reads. The reads with a computed key, lines 63
  and 64, go through \<open>lookup\<close> below, which follows the prototype chain.
\<close>

fun get_own :: "jsval \<Rightarrow> string \<Rightarrow> jsval" where
  "get_own (JObj ps) k = (case map_of ps k of None \<Rightarrow> JUndefined | Some v \<Rightarrow> v)"
| "get_own (JArr xs) k =
     (if k = ''length'' then JNum (real (length xs))
      else (case array_index k of
              None \<Rightarrow> JUndefined
            | Some i \<Rightarrow> if i < length xs then xs ! i else JUndefined))"
| "get_own (JStr s) k =
     (if k = ''length'' then JNum (real (length s))
      else (case array_index k of
              None \<Rightarrow> JUndefined
            | Some i \<Rightarrow> if i < length s then JStr [s ! i] else JUndefined))"
| "get_own v k = JUndefined"

text \<open>
  \<^verbatim>\<open>v.k\<close> for one of these names: a \<^verbatim>\<open>TypeError\<close> on \<^verbatim>\<open>undefined\<close> and
  \<^verbatim>\<open>null\<close>.
\<close>

definition get :: "jsval \<Rightarrow> string \<Rightarrow> error + jsval" where
  "get v k = (if nullish v then Inl TypeError else Inr (get_own v k))"

text \<open>
  The names under which every object inherits a member from \<^verbatim>\<open>Object.prototype\<close>:
  functions, and under \<^verbatim>\<open>__proto__\<close> the object's prototype.
\<close>

definition object_prototype_names :: "string list" where
  "object_prototype_names =
     [''constructor'', ''hasOwnProperty'', ''isPrototypeOf'', ''propertyIsEnumerable'',
      ''toLocaleString'', ''toString'', ''valueOf'', ''__proto__'', ''__defineGetter__'',
      ''__defineSetter__'', ''__lookupGetter__'', ''__lookupSetter__'']"

text \<open>
  What a read with a computed key yields: a value of the embedding; the member inherited
  under a name of \<open>object_prototype_names\<close>; or, for a key that an array, a string, a
  number or a boolean does not have as its own, \<open>Unlisted\<close>: \<^verbatim>\<open>undefined\<close> or a
  member of that value's own prototype, whose names the embedding does not list.
\<close>

datatype cell = Val jsval | Inherited string | Unlisted

fun has_own :: "jsval \<Rightarrow> string \<Rightarrow> bool" where
  "has_own (JObj ps) k = (map_of ps k \<noteq> None)"
| "has_own (JArr xs) k =
     (k = ''length'' \<or> (case array_index k of None \<Rightarrow> False | Some i \<Rightarrow> i < length xs))"
| "has_own (JStr s) k =
     (k = ''length'' \<or> (case array_index k of None \<Rightarrow> False | Some i \<Rightarrow> i < length s))"
| "has_own v k = False"

text \<open>
  \<open>lookup v k\<close> is \<^verbatim>\<open>v[k]\<close> for a value \<open>v\<close> that is neither
  \<^verbatim>\<open>undefined\<close> nor \<^verbatim>\<open>null\<close>: the own property when there is one; otherwise
  what the prototype chain gives, which for a plain object ends at
  \<^verbatim>\<open>Object.prototype\<close>.
\<close>

definition lookup :: "jsval \<Rightarrow> string \<Rightarrow> cell" where
  "lookup v k =
     (if has_own v k then Val (get_own v k)
      else if k \<in> set object_prototype_names then Inherited k
      else (case v of JObj ps \<Rightarrow> Val JUndefined | _ \<Rightarrow> Unlisted))"

text \<open>\<^verbatim>\<open>v[k]\<close>: a \<^verbatim>\<open>TypeError\<close> on \<^verbatim>\<open>undefined\<close> and \<^verbatim>\<open>null\<close>.\<close>

definition member :: "jsval \<Rightarrow> string \<Rightarrow> error + cell" where
  "member v k = (if nullish v then Inl TypeError else Inr (lookup v k))"

text \<open>
  The own enumerable string keys of a plain object, in the order every own-key
  enumeration of the language uses: first the keys that are array indices, in ascending
  numeric order, then all other keys in the order of their creation.
\<close>

definition own_keys :: "(string \<times> jsval) list \<Rightarrow> string list" where
  "own_keys ps =
     sort_key index_val (filter is_index (map fst ps))
       @ filter (\<lambda>k. \<not> is_index k) (map fst ps)"

text \<open>
  \<^verbatim>\<open>Object.keys(v)\<close>: a \<^verbatim>\<open>TypeError\<close> on \<^verbatim>\<open>undefined\<close> and \<^verbatim>\<open>null\<close>;
  the indices of an array or a string; nothing for a boolean or a number.
\<close>

fun Object_keys :: "jsval \<Rightarrow> error + string list" where
  "Object_keys JUndefined = Inl TypeError"
| "Object_keys JNull = Inl TypeError"
| "Object_keys (JObj ps) = Inr (own_keys ps)"
| "Object_keys (JArr xs) = Inr (map show_nat [0..<length xs])"
| "Object_keys (JStr s) = Inr (map show_nat [0..<length s])"
| "Object_keys v = Inr []"

text \<open>A callback applied to each element in turn; the first fault ends the loop.\<close>

fun map_res :: "('a \<Rightarrow> error + 'b) \<Rightarrow> 'a list \<Rightarrow> error + 'b list" where
  "map_res f [] = Inr []"
| "map_res f (x # xs) =
     and_then (f x) (\<lambda>y. and_then (map_res f xs) (\<lambda>ys. Inr (y # ys)))"

text \<open>
  \<^verbatim>\<open>v.map(f)\<close>: on an array, the elements of the fresh array the call returns. On any
  other value of the embedding \<^verbatim>\<open>v.map\<close> is not a function (a string, a number and a
  boolean have none, and a property of a JSON object is never a function), and on
  \<^verbatim>\<open>undefined\<close>/\<^verbatim>\<open>null\<close> the read itself throws: a \<^verbatim>\<open>TypeError\<close>
  either way.
\<close>

fun array_map :: "jsval \<Rightarrow> (jsval \<Rightarrow> error + 'b) \<Rightarrow> error + 'b list" where
  "array_map (JArr xs) f = map_res f xs"
| "array_map v f = Inl TypeError"

text \<open>
  \<^verbatim>\<open>v > 0\<close>: \<^verbatim>\<open>ToNumber\<close> maps \<^verbatim>\<open>undefined\<close> to \<open>NaN\<close>, \<^verbatim>\<open>null\<close> to
  \<open>0\<close> and \<^verbatim>\<open>true\<close> to \<open>1\<close>, and a comparison with \<open>NaN\<close> is false. For a
  string, an array or an object \<^verbatim>\<open>ToNumber\<close> parses a numeric literal, which the
  embedding does not do.
\<close>

fun gt_zero :: "jsval \<Rightarrow> error + bool" where
  "gt_zero (JNum n) = Inr (0 < n)"
| "gt_zero JNaN = Inr False"
| "gt_zero JUndefined = Inr False"
| "gt_zero JNull = Inr False"
| "gt_zero (JBool b) = Inr b"
| "gt_zero v = Inl OutsideModel"

section \<open>The rendered view\<close>

text \<open>
  The element tree \<^verbatim>\<open>ReportView\<close> returns, reduced to what varies with the input:
  the children the JSX expressions put into the four cards. A child is kept as the
  JavaScript value the expression evaluates to; how React later prints a child (nothing
  for \<^verbatim>\<open>undefined\<close>, \<^verbatim>\<open>null\<close> and booleans, the text of a string or number)
  is not part of the component. The two cells of a table row are what the reads of lines
  63 and 64 yield.
\<close>

record summary_panel =
  total_rows :: jsval
  total_columns :: jsval
  detected_target_text :: jsval
  cleaned_file :: jsval
  model_path_text :: jsval

record table_row =
  col :: string
  type_cell :: cell
  missing_cell :: cell

text \<open>
  The dropped-columns card holds either the \<^verbatim>\<open>ul\<close> with one \<^verbatim>\<open>li\<close> per
  element (each \<^verbatim>\<open>li\<close> given by its child; its key is the string the element
  factory makes of the same value), or the paragraph \<^verbatim>\<open>No columns dropped\<close>.
\<close>

datatype dropped_view = DroppedList "jsval list" | NoColumnsDropped

text \<open>
  \<open>EmptyState\<close> carries the text of the paragraph of the early return. In a
  \<open>Dashboard\<close> the last component is the chart card: \<open>Some d\<close> when the card is
  there, with \<open>d\<close> the \<^verbatim>\<open>data\<close> of its \<^verbatim>\<open>BarChart\<close>, and \<open>None\<close> when
  the expression \<^verbatim>\<open>featureData.length > 0 && ...\<close> is \<^verbatim>\<open>false\<close>, which puts
  no element into the tree.
\<close>

datatype view =
    EmptyState string
  | Dashboard summary_panel "table_row list" dropped_view "jsval option"

section \<open>The component\<close>

text \<open>The ten names of the destructuring \<^verbatim>\<open>const { ... } = report\<close>.\<close>

record fields =
  cleaned_path :: jsval
  column_types :: jsval
  columns :: jsval
  datetime_columns :: jsval
  detected_target :: jsval
  dropped_columns :: jsval
  missing_counts :: jsval
  model_metrics :: jsval
  model_path :: jsval
  rows :: jsval

definition destructure :: "jsval \<Rightarrow> error + fields" where
  "destructure report =
     (if nullish report then Inl TypeError
      else Inr \<lparr> cleaned_path = get_own report ''cleaned_path'',
                 column_types = get_own report ''column_types'',
                 columns = get_own report ''columns'',
                 datetime_columns = get_own report ''datetime_columns'',
                 detected_target = get_own report ''detected_target'',
                 dropped_columns = get_own report ''dropped_columns'',
                 missing_counts = get_own report ''missing_counts'',
                 model_metrics = get_own report ''model_metrics'',
                 model_path = get_own report ''model_path'',
                 rows = get_own report ''rows'' \<rparr>)"

text \<open>
  The callback of line 28:
  \<^verbatim>\<open>(item) => ({ name: item.feature, importance: item.importance })\<close>.
\<close>

definition feature_item :: "jsval \<Rightarrow> error + jsval" where
  "feature_item item =
     and_then (get item ''feature'') (\<lambda>f.
     and_then (get item ''importance'') (\<lambda>i.
       Inr (JObj [(''name'', f), (''importance'', i)])))"

text \<open>
  Lines 27 to 31:
  \<^verbatim>\<open>model_metrics?.feature_importances?.map(...) || []\<close>.
  The optional chain is \<^verbatim>\<open>undefined\<close> when \<^verbatim>\<open>model_metrics\<close> or its
  \<^verbatim>\<open>feature_importances\<close> is \<^verbatim>\<open>undefined\<close>/\<^verbatim>\<open>null\<close>.
\<close>

definition featureData :: "jsval \<Rightarrow> error + jsval" where
  "featureData mm =
     and_then
       (if nullish mm then Inr JUndefined
        else if nullish (get_own mm ''feature_importances'') then Inr JUndefined
        else and_then (array_map (get_own mm ''feature_importances'') feature_item)
               (\<lambda>ys. Inr (JArr ys)))
       (\<lambda>chain. Inr (js_or chain (JArr [])))"

text \<open>Lines 39 to 43: the five children of the summary card.\<close>

definition summary :: "fields \<Rightarrow> summary_panel" where
  "summary f =
     \<lparr> total_rows = rows f,
       total_columns = columns f,
       detected_target_text = js_or (detected_target f) (JStr ''None''),
       cleaned_file = cleaned_path f,
       model_path_text = model_path f \<rparr>"

text \<open>Lines 60 to 66: one \<^verbatim>\<open>tr\<close> per key of \<^verbatim>\<open>Object.keys(column_types)\<close>.\<close>

text \<open>
  Lines 61 to 65: \<^verbatim>\<open>column_types[col]\<close> and \<^verbatim>\<open>missing_counts[col]\<close> are reads
  with a computed key. (The key of the \<^verbatim>\<open>tr\<close> is \<^verbatim>\<open>col\<close>, a string.)
\<close>

definition column_row :: "jsval \<Rightarrow> jsval \<Rightarrow> string \<Rightarrow> error + table_row" where
  "column_row cts mcs c =
     and_then (member cts c) (\<lambda>t.
     and_then (member mcs c) (\<lambda>m.
       Inr \<lparr> col = c, type_cell = t, missing_cell = m \<rparr>))"

definition column_rows :: "jsval \<Rightarrow> jsval \<Rightarrow> error + table_row list" where
  "column_rows cts mcs = and_then (Object_keys cts) (map_res (column_row cts mcs))"

text \<open>
  Whether \<^verbatim>\<open>'' + v\<close> returns. The element factory computes it for
  \<^verbatim>\<open>key={v}\<close> (unless \<open>v\<close> is \<^verbatim>\<open>undefined\<close>). A primitive always has a
  string. A plain object is converted by the \<^verbatim>\<open>toString\<close> it inherits, unless it has
  an own property \<^verbatim>\<open>toString\<close>: that one is not a function, and the conversion
  throws a \<^verbatim>\<open>TypeError\<close>. An array joins the strings of its elements.
\<close>

fun key_coercible :: "jsval \<Rightarrow> bool" where
  "key_coercible (JObj ps) = (map_of ps ''toString'' = None)"
| "key_coercible (JArr xs) = list_all key_coercible xs"
| "key_coercible v = True"

text \<open>The callback of line 78: \<^verbatim>\<open>(col) => <li key={col}>{col}</li>\<close>.\<close>

definition li_item :: "jsval \<Rightarrow> error + jsval" where
  "li_item c = (if key_coercible c then Inr c else Inl TypeError)"

text \<open>
  Lines 76 to 84:
  \<^verbatim>\<open>dropped_columns.length > 0 ? <ul>{dropped_columns.map(...)}</ul> : <p>...</p>\<close>.
\<close>

definition dropped_panel :: "jsval \<Rightarrow> error + dropped_view" where
  "dropped_panel dcs =
     and_then (get dcs ''length'') (\<lambda>n.
     and_then (gt_zero n) (\<lambda>positive.
       if positive
       then and_then (array_map dcs li_item) (\<lambda>lis. Inr (DroppedList lis))
       else Inr NoColumnsDropped))"

text \<open>Lines 89 to 104: \<^verbatim>\<open>featureData.length > 0 && <Card>...</Card>\<close>.\<close>

definition chart_panel :: "jsval \<Rightarrow> error + jsval option" where
  "chart_panel fd =
     and_then (get fd ''length'') (\<lambda>n.
     and_then (gt_zero n) (\<lambda>positive.
       Inr (if positive then Some fd else None)))"

definition empty_message :: string where
  "empty_message = ''No report data available yet. Upload a dataset first!''"

text \<open>
  The component. The JSX children are evaluated in document order, after
  \<^verbatim>\<open>featureData\<close>, so the first fault in that order is the one raised.
\<close>

definition ReportView :: "jsval \<Rightarrow> error + view" where
  "ReportView report =
     (if \<not> truthy report then Inr (EmptyState empty_message)
      else
        and_then (destructure report) (\<lambda>f.
        and_then (featureData (model_metrics f)) (\<lambda>fd.
        and_then (column_rows (column_types f) (missing_counts f)) (\<lambda>trs.
        and_then (dropped_panel (dropped_columns f)) (\<lambda>dp.
        and_then (chart_panel fd) (\<lambda>chart.
          Inr (Dashboard (summary f) trs dp chart)))))))"

text \<open>The four panels of a view, each absent from the empty state.\<close>

fun summary_of :: "view \<Rightarrow> summary_panel option" where
  "summary_of (EmptyState m) = None"
| "summary_of (Dashboard s trs dp chart) = Some s"

fun table_of :: "view \<Rightarrow> table_row list option" where
  "table_of (EmptyState m) = None"
| "table_of (Dashboard s trs dp chart) = Some trs"

fun dropped_of :: "view \<Rightarrow> dropped_view option" where
  "dropped_of (EmptyState m) = None"
| "dropped_of (Dashboard s trs dp chart) = Some dp"

fun chart_of :: "view \<Rightarrow> jsval option" where
  "chart_of (EmptyState m) = None"
| "chart_of (Dashboard s trs dp chart) = chart"

section \<open>The component on an explicit store\<close>

text \<open>
  The values above are trees: they say what a report holds, not where its arrays and
  objects live. To state that rendering changes nothing that was there before, the
  component is embedded a second time over a store: an array or an object is a cell of
  the store, a value refers to it by its address, and the store is passed through the
  computation. The source assigns to no property and to no variable outside the call. It
  creates data in three places: the object literal of the callback of line 28, the array
  \<^verbatim>\<open>map\<close> returns there, and the literal \<^verbatim>\<open>[]\<close> of line 31; these are
  new cells. The arrays that \<^verbatim>\<open>Object.keys\<close> and the \<^verbatim>\<open>map\<close> calls of
  lines 60 and 78 return hold keys and React elements and go straight into the returned
  element tree: like the elements, they are written as part of the result.
\<close>

type_synonym addr = nat

datatype hval =
    HUndefined | HNull | HBool bool | HNum real | HNaN | HStr string | HRef addr

datatype hobj = HArr "hval list" | HObj "(string \<times> hval) list"

text \<open>The store is the list of its cells; a cell's address is its position.\<close>

type_synonym store = "hobj list"

fun truthy_h :: "hval \<Rightarrow> bool" where
  "truthy_h HUndefined = False"
| "truthy_h HNull = False"
| "truthy_h (HBool b) = b"
| "truthy_h (HNum n) = (n \<noteq> 0)"
| "truthy_h HNaN = False"
| "truthy_h (HStr s) = (s \<noteq> [])"
| "truthy_h (HRef a) = True"

fun nullish_h :: "hval \<Rightarrow> bool" where
  "nullish_h HUndefined = True"
| "nullish_h HNull = True"
| "nullish_h v = False"

fun own_h :: "hobj \<Rightarrow> string \<Rightarrow> hval" where
  "own_h (HObj ps) k = (case map_of ps k of None \<Rightarrow> HUndefined | Some v \<Rightarrow> v)"
| "own_h (HArr xs) k =
     (if k = ''length'' then HNum (real (length xs))
      else (case array_index k of
              None \<Rightarrow> HUndefined
            | Some i \<Rightarrow> if i < length xs then xs ! i else HUndefined))"

text \<open>
  \<^verbatim>\<open>v[k]\<close> in store \<open>h\<close>. An address beyond the store refers to nothing; no value
  of a running program holds one.
\<close>

fun get_own_h :: "store \<Rightarrow> hval \<Rightarrow> string \<Rightarrow> hval" where
  "get_own_h h (HRef a) k = (if a < length h then own_h (h ! a) k else HUndefined)"
| "get_own_h h (HStr s) k =
     (if k = ''length'' then HNum (real (length s))
      else (case array_index k of
              None \<Rightarrow> HUndefined
            | Some i \<Rightarrow> if i < length s then HStr [s ! i] else HUndefined))"
| "get_own_h h v k = HUndefined"

definition get_h :: "store \<Rightarrow> hval \<Rightarrow> string \<Rightarrow> error + hval" where
  "get_h h v k = (if nullish_h v then Inl TypeError else Inr (get_own_h h v k))"

datatype hcell = HVal hval | HInherited string | HUnlisted

fun owns_h :: "hobj \<Rightarrow> string \<Rightarrow> bool" where
  "owns_h (HObj ps) k = (map_of ps k \<noteq> None)"
| "owns_h (HArr xs) k =
     (k = ''length'' \<or> (case array_index k of None \<Rightarrow> False | Some i \<Rightarrow> i < length xs))"

fun has_own_h :: "store \<Rightarrow> hval \<Rightarrow> string \<Rightarrow> bool" where
  "has_own_h h (HRef a) k = (a < length h \<and> owns_h (h ! a) k)"
| "has_own_h h (HStr s) k =
     (k = ''length'' \<or> (case array_index k of None \<Rightarrow> False | Some i \<Rightarrow> i < length s))"
| "has_own_h h v k = False"

fun plain_h :: "store \<Rightarrow> hval \<Rightarrow> bool" where
  "plain_h h (HRef a) = (a < length h \<and> (case h ! a of HObj ps \<Rightarrow> True | HArr xs \<Rightarrow> False))"
| "plain_h h v = False"

definition lookup_h :: "store \<Rightarrow> hval \<Rightarrow> string \<Rightarrow> hcell" where
  "lookup_h h v k =
     (if has_own_h h v k then HVal (get_own_h h v k)
      else if k \<in> set object_prototype_names then HInherited k
      else if plain_h h v then HVal HUndefined else HUnlisted)"

definition member_h :: "store \<Rightarrow> hval \<Rightarrow> string \<Rightarrow> error + hcell" where
  "member_h h v k = (if nullish_h v then Inl TypeError else Inr (lookup_h h v k))"

fun is_ref :: "hval \<Rightarrow> bool" where
  "is_ref (HRef a) = True"
| "is_ref v = False"

text \<open>
  \<^verbatim>\<open>'' + v\<close> returns: the conversion of an array visits its elements, so this is the
  least relation closed under the three cases.
\<close>

inductive coerces_h :: "store \<Rightarrow> hval \<Rightarrow> bool" for h :: store where
  coerces_primitive: "\<not> is_ref v \<Longrightarrow> coerces_h h v"
| coerces_object: "a < length h \<Longrightarrow> h ! a = HObj ps \<Longrightarrow> map_of ps ''toString'' = None
     \<Longrightarrow> coerces_h h (HRef a)"
| coerces_array: "a < length h \<Longrightarrow> h ! a = HArr xs \<Longrightarrow> list_all (coerces_h h) xs
     \<Longrightarrow> coerces_h h (HRef a)"

code_pred (modes: i \<Rightarrow> i \<Rightarrow> bool) coerces_h .

definition li_item_h :: "store \<Rightarrow> hval \<Rightarrow> error + hval" where
  "li_item_h h c = (if coerces_h h c then Inr c else Inl TypeError)"

fun keys_h :: "hobj \<Rightarrow> string list" where
  "keys_h (HObj ps) =
     sort_key index_val (filter is_index (map fst ps))
       @ filter (\<lambda>k. \<not> is_index k) (map fst ps)"
| "keys_h (HArr xs) = map show_nat [0..<length xs]"

fun Object_keys_h :: "store \<Rightarrow> hval \<Rightarrow> error + string list" where
  "Object_keys_h h HUndefined = Inl TypeError"
| "Object_keys_h h HNull = Inl TypeError"
| "Object_keys_h h (HRef a) = Inr (if a < length h then keys_h (h ! a) else [])"
| "Object_keys_h h (HStr s) = Inr (map show_nat [0..<length s])"
| "Object_keys_h h v = Inr []"

fun gt_zero_h :: "hval \<Rightarrow> error + bool" where
  "gt_zero_h (HNum n) = Inr (0 < n)"
| "gt_zero_h HNaN = Inr False"
| "gt_zero_h HUndefined = Inr False"
| "gt_zero_h HNull = Inr False"
| "gt_zero_h (HBool b) = Inr b"
| "gt_zero_h v = Inl OutsideModel"

text \<open>The elements \<^verbatim>\<open>v.map\<close> iterates over: \<open>v\<close> must be an array.\<close>

fun elements_h :: "store \<Rightarrow> hval \<Rightarrow> error + hval list" where
  "elements_h h (HRef a) =
     (if a < length h then (case h ! a of HArr xs \<Rightarrow> Inr xs | HObj ps \<Rightarrow> Inl TypeError)
      else Inl TypeError)"
| "elements_h h v = Inl TypeError"

text \<open>
  A step of the computation takes the store and returns its result with the store it
  leaves. \<open>read_h\<close> is a step that only looks at the store; \<open>new_h\<close> is the only step
  that changes it, by adding a cell at the next address.
\<close>

definition then_h ::
  "(store \<Rightarrow> (error + 'a) \<times> store) \<Rightarrow> ('a \<Rightarrow> store \<Rightarrow> (error + 'b) \<times> store)
     \<Rightarrow> store \<Rightarrow> (error + 'b) \<times> store" where
  "then_h m f h = (case m h of (Inl e, h') \<Rightarrow> (Inl e, h') | (Inr x, h') \<Rightarrow> f x h')"

definition pure_h :: "error + 'a \<Rightarrow> store \<Rightarrow> (error + 'a) \<times> store" where
  "pure_h r h = (r, h)"

definition read_h :: "(store \<Rightarrow> error + 'a) \<Rightarrow> store \<Rightarrow> (error + 'a) \<times> store" where
  "read_h g h = (g h, h)"

definition new_h :: "hobj \<Rightarrow> store \<Rightarrow> (error + hval) \<times> store" where
  "new_h ob h = (Inr (HRef (length h)), h @ [ob])"

fun each_h :: "('a \<Rightarrow> store \<Rightarrow> (error + 'b) \<times> store) \<Rightarrow> 'a list
    \<Rightarrow> store \<Rightarrow> (error + 'b list) \<times> store" where
  "each_h f [] = pure_h (Inr [])"
| "each_h f (x # xs) = then_h (f x) (\<lambda>y. then_h (each_h f xs) (\<lambda>ys. pure_h (Inr (y # ys))))"

definition feature_item_h :: "hval \<Rightarrow> store \<Rightarrow> (error + hval) \<times> store" where
  "feature_item_h item =
     then_h (read_h (\<lambda>h. get_h h item ''feature'')) (\<lambda>f.
     then_h (read_h (\<lambda>h. get_h h item ''importance'')) (\<lambda>i.
       new_h (HObj [(''name'', f), (''importance'', i)])))"

definition featureData_h :: "hval \<Rightarrow> store \<Rightarrow> (error + hval) \<times> store" where
  "featureData_h mm =
     then_h
       (\<lambda>h. if nullish_h mm then pure_h (Inr HUndefined) h
            else if nullish_h (get_own_h h mm ''feature_importances'')
            then pure_h (Inr HUndefined) h
            else then_h (read_h (\<lambda>h. elements_h h (get_own_h h mm ''feature_importances'')))
                   (\<lambda>xs. then_h (each_h feature_item_h xs) (\<lambda>ys. new_h (HArr ys))) h)
       (\<lambda>chain. if truthy_h chain then pure_h (Inr chain) else new_h (HArr []))"

record hfields =
  h_cleaned_path :: hval
  h_column_types :: hval
  h_columns :: hval
  h_datetime_columns :: hval
  h_detected_target :: hval
  h_dropped_columns :: hval
  h_missing_counts :: hval
  h_model_metrics :: hval
  h_model_path :: hval
  h_rows :: hval

record hsummary =
  h_total_rows :: hval
  h_total_columns :: hval
  h_detected_target_text :: hval
  h_cleaned_file :: hval
  h_model_path_text :: hval

record hrow =
  h_col :: string
  h_type_cell :: hcell
  h_missing_cell :: hcell

datatype hdropped = HDroppedList "hval list" | HNoColumnsDropped

datatype hview =
    HEmptyState string
  | HDashboard hsummary "hrow list" hdropped "hval option"

definition destructure_h :: "hval \<Rightarrow> store \<Rightarrow> error + hfields" where
  "destructure_h report h =
     (if nullish_h report then Inl TypeError
      else Inr \<lparr> h_cleaned_path = get_own_h h report ''cleaned_path'',
                 h_column_types = get_own_h h report ''column_types'',
                 h_columns = get_own_h h report ''columns'',
                 h_datetime_columns = get_own_h h report ''datetime_columns'',
                 h_detected_target = get_own_h h report ''detected_target'',
                 h_dropped_columns = get_own_h h report ''dropped_columns'',
                 h_missing_counts = get_own_h h report ''missing_counts'',
                 h_model_metrics = get_own_h h report ''model_metrics'',
                 h_model_path = get_own_h h report ''model_path'',
                 h_rows = get_own_h h report ''rows'' \<rparr>)"

definition summary_h :: "hfields \<Rightarrow> hsummary" where
  "summary_h f =
     \<lparr> h_total_rows = h_rows f,
       h_total_columns = h_columns f,
       h_detected_target_text =
         (if truthy_h (h_detected_target f) then h_detected_target f else HStr ''None''),
       h_cleaned_file = h_cleaned_path f,
       h_model_path_text = h_model_path f \<rparr>"

definition column_row_h :: "store \<Rightarrow> hval \<Rightarrow> hval \<Rightarrow> string \<Rightarrow> error + hrow" where
  "column_row_h h cts mcs c =
     and_then (member_h h cts c) (\<lambda>t.
     and_then (member_h h mcs c) (\<lambda>m.
       Inr \<lparr> h_col = c, h_type_cell = t, h_missing_cell = m \<rparr>))"

definition column_rows_h :: "hval \<Rightarrow> hval \<Rightarrow> store \<Rightarrow> error + hrow list" where
  "column_rows_h cts mcs h = and_then (Object_keys_h h cts) (map_res (column_row_h h cts mcs))"

definition dropped_panel_h :: "hval \<Rightarrow> store \<Rightarrow> error + hdropped" where
  "dropped_panel_h dcs h =
     and_then (get_h h dcs ''length'') (\<lambda>n.
     and_then (gt_zero_h n) (\<lambda>positive.
       if positive
       then and_then (elements_h h dcs) (\<lambda>cs.
            and_then (map_res (li_item_h h) cs) (\<lambda>lis. Inr (HDroppedList lis)))
       else Inr HNoColumnsDropped))"

definition chart_panel_h :: "hval \<Rightarrow> store \<Rightarrow> error + hval option" where
  "chart_panel_h fd h =
     and_then (get_h h fd ''length'') (\<lambda>n.
     and_then (gt_zero_h n) (\<lambda>positive.
       Inr (if positive then Some fd else None)))"

text \<open>
  \<^verbatim>\<open>ReportView\<close> over the store: the same steps in the same order. Only
  \<open>featureData_h\<close> is not a \<open>read_h\<close>.
\<close>

definition ReportView_h :: "hval \<Rightarrow> store \<Rightarrow> (error + hview) \<times> store" where
  "ReportView_h report =
     (if \<not> truthy_h report then pure_h (Inr (HEmptyState empty_message))
      else
        then_h (read_h (destructure_h report)) (\<lambda>f.
        then_h (featureData_h (h_model_metrics f)) (\<lambda>fd.
        then_h (read_h (column_rows_h (h_column_types f) (h_missing_counts f))) (\<lambda>trs.
        then_h (read_h (dropped_panel_h (h_dropped_columns f))) (\<lambda>dp.
        then_h (read_h (chart_panel_h fd)) (\<lambda>chart.
          pure_h (Inr (HDashboard (summary_h f) trs dp chart))))))))"

text \<open>
  \<open>Rep h v j\<close>: in store \<open>h\<close> the value \<open>v\<close> holds the tree \<open>j\<close>. Two values
  are equal as report inputs when they hold the same tree.
\<close>

inductive Rep :: "store \<Rightarrow> hval \<Rightarrow> jsval \<Rightarrow> bool" for h :: store where
  Rep_Undefined: "Rep h HUndefined JUndefined"
| Rep_Null: "Rep h HNull JNull"
| Rep_Bool: "Rep h (HBool b) (JBool b)"
| Rep_Num: "Rep h (HNum n) (JNum n)"
| Rep_NaN: "Rep h HNaN JNaN"
| Rep_Str: "Rep h (HStr s) (JStr s)"
| Rep_Arr: "a < length h \<Longrightarrow> h ! a = HArr vs \<Longrightarrow> list_all2 (Rep h) vs js
     \<Longrightarrow> Rep h (HRef a) (JArr js)"
| Rep_Obj: "a < length h \<Longrightarrow> h ! a = HObj ps \<Longrightarrow> map fst ps = map fst qs
     \<Longrightarrow> list_all2 (Rep h) (map snd ps) (map snd qs) \<Longrightarrow> Rep h (HRef a) (JObj qs)"

code_pred (modes: i \<Rightarrow> i \<Rightarrow> i \<Rightarrow> bool) Rep .

text \<open>
  The same for the parts of a view, and for a result: a fault holds itself, a view holds
  the view of trees it is made of.
\<close>

definition RepSummary :: "store \<Rightarrow> hsummary \<Rightarrow> summary_panel \<Rightarrow> bool" where
  "RepSummary h s t =
     (Rep h (h_total_rows s) (total_rows t) \<and> Rep h (h_total_columns s) (total_columns t)
      \<and> Rep h (h_detected_target_text s) (detected_target_text t)
      \<and> Rep h (h_cleaned_file s) (cleaned_file t)
      \<and> Rep h (h_model_path_text s) (model_path_text t))"

fun RepCell :: "store \<Rightarrow> hcell \<Rightarrow> cell \<Rightarrow> bool" where
  "RepCell h (HVal v) (Val j) = Rep h v j"
| "RepCell h (HInherited k) (Inherited n) = (k = n)"
| "RepCell h HUnlisted Unlisted = True"
| "RepCell h c d = False"

definition RepRow :: "store \<Rightarrow> hrow \<Rightarrow> table_row \<Rightarrow> bool" where
  "RepRow h r t =
     (h_col r = col t \<and> RepCell h (h_type_cell r) (type_cell t)
      \<and> RepCell h (h_missing_cell r) (missing_cell t))"

fun RepDropped :: "store \<Rightarrow> hdropped \<Rightarrow> dropped_view \<Rightarrow> bool" where
  "RepDropped h (HDroppedList vs) (DroppedList js) = list_all2 (Rep h) vs js"
| "RepDropped h HNoColumnsDropped NoColumnsDropped = True"
| "RepDropped h d e = False"

fun RepView :: "store \<Rightarrow> hview \<Rightarrow> view \<Rightarrow> bool" where
  "RepView h (HEmptyState m) (EmptyState n) = (m = n)"
| "RepView h (HDashboard s trs dp chart) (Dashboard t urs dq chart') =
     (RepSummary h s t \<and> list_all2 (RepRow h) trs urs \<and> RepDropped h dp dq
      \<and> rel_option (Rep h) chart chart')"
| "RepView h v w = False"

definition RepOut :: "store \<Rightarrow> error + hview \<Rightarrow> error + view \<Rightarrow> bool" where
  "RepOut h r q = rel_sum (=) (RepView h) r q"

section \<open>Example reports\<close>

text \<open>
  The second scenario of the specification: no \<^verbatim>\<open>model_metrics\<close>, no target, nothing
  dropped.
\<close>

definition report_plain :: jsval where
  "report_plain =
     JObj [(''rows'', JNum 100), (''columns'', JNum 5), (''detected_target'', JNull),
           (''cleaned_path'', JStr ''x.csv''), (''model_path'', JStr ''m.pkl''),
           (''column_types'', JObj [(''age'', JStr ''int'')]),
           (''missing_counts'', JObj [(''age'', JNum 0)]),
           (''dropped_columns'', JArr [])]"

text \<open>
  A report after training: a target, two dropped columns, two feature importances (not in
  order of magnitude), and a column \<^verbatim>\<open>name\<close> without an entry in
  \<^verbatim>\<open>missing_counts\<close>. It has no \<^verbatim>\<open>cleaned_path\<close>.
\<close>

definition metrics_ab :: jsval where
  "metrics_ab =
     JObj [(''feature_importances'',
            JArr [JObj [(''feature'', JStr ''a''), (''importance'', JNum (3 / 10))],
                  JObj [(''feature'', JStr ''b''), (''importance'', JNum (9 / 10))]])]"

definition report_trained :: jsval where
  "report_trained =
     JObj [(''rows'', JNum 0), (''columns'', JNum 2), (''detected_target'', JStr ''age''),
           (''model_path'', JStr ''m.pkl''),
           (''column_types'', JObj [(''age'', JStr ''int''), (''name'', JStr ''str'')]),
           (''missing_counts'', JObj [(''age'', JNum 0)]),
           (''dropped_columns'', JArr [JStr ''id'', JStr ''notes'']),
           (''model_metrics'', metrics_ab)]"

text \<open>The plain report without its \<^verbatim>\<open>dropped_columns\<close> member.\<close>

definition report_no_dropped :: jsval where
  "report_no_dropped =
     JObj [(''rows'', JNum 100), (''columns'', JNum 5), (''detected_target'', JNull),
           (''cleaned_path'', JStr ''x.csv''), (''model_path'', JStr ''m.pkl''),
           (''column_types'', JObj [(''age'', JStr ''int'')]),
           (''missing_counts'', JObj [(''age'', JNum 0)])]"

text \<open>
  A dataset whose second column is headed \<^verbatim>\<open>1\<close>: the members of
  \<^verbatim>\<open>column_types\<close> were created in the order \<^verbatim>\<open>b\<close>, \<^verbatim>\<open>1\<close>.
\<close>

definition report_numbered :: jsval where
  "report_numbered =
     JObj [(''rows'', JNum 3), (''columns'', JNum 2),
           (''cleaned_path'', JStr ''x.csv''), (''model_path'', JStr ''m.pkl''),
           (''column_types'', JObj [(''b'', JStr ''int''), (''1'', JStr ''str'')]),
           (''missing_counts'', JObj [(''b'', JNum 0), (''1'', JNum 2)]),
           (''dropped_columns'', JArr [])]"

text \<open>
  A present report with one feature importance and without \<^verbatim>\<open>dropped_columns\<close>.
\<close>

definition report_series_no_dropped :: jsval where
  "report_series_no_dropped =
     JObj [(''rows'', JNum 100), (''columns'', JNum 5),
           (''cleaned_path'', JStr ''x.csv''), (''model_path'', JStr ''m.pkl''),
           (''column_types'', JObj [(''age'', JStr ''int'')]),
           (''missing_counts'', JObj [(''age'', JNum 0)]),
           (''model_metrics'',
            JObj [(''feature_importances'',
                   JArr [JObj [(''feature'', JStr ''age''), (''importance'', JNum (8 / 10))]])])]"

text \<open>
  A dataset with a column headed \<^verbatim>\<open>constructor\<close>, for which no missing count was
  recorded; and a report with such a gap (column \<^verbatim>\<open>name\<close>) and without
  \<^verbatim>\<open>dropped_columns\<close>.
\<close>

definition report_inherited :: jsval where
  "report_inherited =
     JObj [(''rows'', JNum 3), (''columns'', JNum 1),
           (''cleaned_path'', JStr ''x.csv''), (''model_path'', JStr ''m.pkl''),
           (''column_types'', JObj [(''constructor'', JStr ''str'')]),
           (''missing_counts'', JObj []),
           (''dropped_columns'', JArr [])]"

definition report_gap_no_dropped :: jsval where
  "report_gap_no_dropped =
     JObj [(''rows'', JNum 3), (''columns'', JNum 2),
           (''cleaned_path'', JStr ''x.csv''), (''model_path'', JStr ''m.pkl''),
           (''column_types'', JObj [(''age'', JStr ''int''), (''name'', JStr ''str'')]),
           (''missing_counts'', JObj [(''age'', JNum 0)])]"

text \<open>
  The third scenario of the specification (the plain report with one feature importance),
  as a tree and as a store with the report at address 6; the view the component returns
  for it when the series array is created at address \<open>a\<close>, and the two cells a render
  creates when the series' one object is created at address \<open>a\<close>.
\<close>

definition report_charted :: jsval where
  "report_charted =
     JObj [(''rows'', JNum 100), (''columns'', JNum 5), (''detected_target'', JNull),
           (''cleaned_path'', JStr ''x.csv''), (''model_path'', JStr ''m.pkl''),
           (''column_types'', JObj [(''age'', JStr ''int'')]),
           (''missing_counts'', JObj [(''age'', JNum 0)]),
           (''dropped_columns'', JArr []),
           (''model_metrics'',
            JObj [(''feature_importances'',
                   JArr [JObj [(''feature'', JStr ''age''), (''importance'', JNum (8 / 10))]])])]"

definition store_charted :: store where
  "store_charted =
     [HObj [(''feature'', HStr ''age''), (''importance'', HNum (8 / 10))],
      HArr [HRef 0],
      HObj [(''feature_importances'', HRef 1)],
      HObj [(''age'', HStr ''int'')],
      HObj [(''age'', HNum 0)],
      HArr [],
      HObj [(''rows'', HNum 100), (''columns'', HNum 5), (''detected_target'', HNull),
            (''cleaned_path'', HStr ''x.csv''), (''model_path'', HStr ''m.pkl''),
            (''column_types'', HRef 3), (''missing_counts'', HRef 4),
            (''dropped_columns'', HRef 5), (''model_metrics'', HRef 2)]]"

definition view_charted :: "addr \<Rightarrow> hview" where
  "view_charted a =
     HDashboard
       \<lparr> h_total_rows = HNum 100, h_total_columns = HNum 5,
         h_detected_target_text = HStr ''None'', h_cleaned_file = HStr ''x.csv'',
         h_model_path_text = HStr ''m.pkl'' \<rparr>
       [\<lparr> h_col = ''age'', h_type_cell = HVal (HStr ''int''), h_missing_cell = HVal (HNum 0) \<rparr>]
       HNoColumnsDropped (Some (HRef a))"

definition series_cells :: "addr \<Rightarrow> store" where
  "series_cells a = [HObj [(''name'', HStr ''age''), (''importance'', HNum (8 / 10))], HArr [HRef a]]"

section \<open>Basic facts\<close>

lemma and_then_Inr [simp]: "and_then (Inr x) f = f x"
  by (simp add: and_then_def)

lemma and_then_Inl [simp]: "and_then (Inl e) f = Inl e"
  by (simp add: and_then_def)

lemma map_res_all_Inr:
  "(\<And>x. x \<in> set xs \<Longrightarrow> f x = Inr (g x)) \<Longrightarrow> map_res f xs = Inr (map g xs)"
  by (induction xs) simp_all

lemma map_res_only_TypeError:
  "(\<And>x e. f x = Inl e \<Longrightarrow> e = TypeError) \<Longrightarrow> map_res f xs = Inl e \<Longrightarrow> e = TypeError"
proof (induction xs arbitrary: e)
  case Nil
  then show ?case by simp
next
  case (Cons a xs)
  then show ?case
    by (cases "f a"; cases "map_res f xs") auto
qed

lemma mset_own_keys: "mset (own_keys ps) = mset (map fst ps)"
  by (simp add: own_keys_def)

lemma set_own_keys: "set (own_keys ps) = fst ` set ps"
  by (auto simp: own_keys_def)

lemma length_own_keys: "length (own_keys ps) = length ps"
  by (metis mset_own_keys size_mset length_map)

lemma distinct_own_keys: "distinct (map fst ps) \<Longrightarrow> distinct (own_keys ps)"
  by (auto simp: own_keys_def)


lemma own_keys_no_index:
  "(\<And>k. k \<in> fst ` set ps \<Longrightarrow> \<not> is_index k) \<Longrightarrow> own_keys ps = map fst ps"
  by (simp add: own_keys_def filter_empty_conv filter_id_conv image_iff) 


lemma truthy_not_nullish: "truthy v \<Longrightarrow> \<not> nullish v"
  by (cases v) simp_all

lemma get_nullish: "nullish v \<Longrightarrow> get v k = Inl TypeError"
  by (simp add: get_def)

lemma get_present: "\<not> nullish v \<Longrightarrow> get v k = Inr (get_own v k)"
  by (simp add: get_def)

lemma feature_item_present:
  "\<not> nullish item \<Longrightarrow>
   feature_item item =
     Inr (JObj [(''name'', get_own item ''feature''), (''importance'', get_own item ''importance'')])"
  by (simp add: feature_item_def get_present)

lemma feature_item_nullish: "nullish item \<Longrightarrow> feature_item item = Inl TypeError"
  by (simp add: feature_item_def get_nullish)

lemma feature_item_error: "feature_item item = Inl e \<Longrightarrow> e = TypeError"
  by (cases "nullish item") (simp_all add: feature_item_present feature_item_nullish)

lemma array_map_error:
  "(\<And>x e. f x = Inl e \<Longrightarrow> e = TypeError) \<Longrightarrow> array_map v f = Inl e \<Longrightarrow> e = TypeError"
proof (cases v)
  case (JArr xs)
  assume f: "\<And>x e. f x = Inl e \<Longrightarrow> e = TypeError" and "array_map v f = Inl e"
  with JArr have "map_res f xs = Inl e" by simp
  with f show ?thesis by (rule map_res_only_TypeError)
qed simp_all

lemma featureData_nullish: "nullish mm \<Longrightarrow> featureData mm = Inr (JArr [])"
  by (simp add: featureData_def js_or_def)

lemma featureData_no_list:
  "nullish (get_own mm ''feature_importances'') \<Longrightarrow> featureData mm = Inr (JArr [])"
  by (simp add: featureData_def js_or_def)

lemma featureData_list:
  assumes "get_own mm ''feature_importances'' = JArr items"
    and "\<And>item. item \<in> set items \<Longrightarrow> \<not> nullish item"
  shows "featureData mm =
     Inr (JArr (map (\<lambda>item. JObj [(''name'', get_own item ''feature''),
                                     (''importance'', get_own item ''importance'')]) items))"
proof -
  have "\<not> nullish mm"
    using assms(1) by (cases mm) simp_all
  moreover have "map_res feature_item items =
     Inr (map (\<lambda>item. JObj [(''name'', get_own item ''feature''),
                              (''importance'', get_own item ''importance'')]) items)"
    by (rule map_res_all_Inr) (simp add: feature_item_present assms(2))
  ultimately show ?thesis
    by (simp add: featureData_def assms(1) js_or_def)
qed

lemma features_error:
  "array_map v feature_item = Inl e \<Longrightarrow> e = TypeError"
  using feature_item_error by (rule array_map_error)

lemma featureData_error: "featureData mm = Inl e \<Longrightarrow> e = TypeError"
  by (auto simp: featureData_def and_then_def split: if_splits sum.splits
      dest: features_error)

lemma featureData_array: "featureData mm = Inr fd \<Longrightarrow> \<exists>ys. fd = JArr ys"
  by (auto simp: featureData_def and_then_def js_or_def split: if_splits sum.splits)

lemma chart_panel_array:
  "chart_panel (JArr ys) = Inr (if ys = [] then None else Some (JArr ys))"
  by (simp add: chart_panel_def get_def)

lemma li_items: "list_all key_coercible xs \<Longrightarrow> map_res li_item xs = Inr xs"
  by (induction xs) (simp_all add: li_item_def)

lemma dropped_panel_array:
  "list_all key_coercible xs \<Longrightarrow>
   dropped_panel (JArr xs) = Inr (if xs = [] then NoColumnsDropped else DroppedList xs)"
  by (simp add: dropped_panel_def get_def li_items)

lemma dropped_panel_nullish: "nullish dcs \<Longrightarrow> dropped_panel dcs = Inl TypeError"
  by (simp add: dropped_panel_def get_nullish)

lemma lookup_own: "map_of ps k = Some v \<Longrightarrow> lookup (JObj ps) k = Val v"
  by (simp add: lookup_def)

lemma lookup_gap:
  "map_of ps k = None \<Longrightarrow>
   lookup (JObj ps) k = (if k \<in> set object_prototype_names then Inherited k else Val JUndefined)"
  by (simp add: lookup_def)

lemma member_error: "member v k = Inl e \<Longrightarrow> e = TypeError"
  by (auto simp: member_def split: if_splits)

lemma column_row_present:
  "\<not> nullish cts \<Longrightarrow> \<not> nullish mcs \<Longrightarrow>
   column_row cts mcs c =
     Inr \<lparr> col = c, type_cell = lookup cts c, missing_cell = lookup mcs c \<rparr>"
  by (simp add: column_row_def member_def)

lemma column_row_error: "column_row cts mcs c = Inl e \<Longrightarrow> e = TypeError"
  by (auto simp: column_row_def and_then_def split: sum.splits dest: member_error)

lemma Object_keys_error: "Object_keys v = Inl e \<Longrightarrow> e = TypeError"
  by (cases v) simp_all

lemma column_rows_loop_error:
  "map_res (column_row cts mcs) ks = Inl e \<Longrightarrow> e = TypeError"
  using column_row_error by (rule map_res_only_TypeError)

lemma column_rows_error: "column_rows cts mcs = Inl e \<Longrightarrow> e = TypeError"
  by (auto simp: column_rows_def and_then_def split: sum.splits
      dest: Object_keys_error column_rows_loop_error)

lemma column_rows_object:
  "\<not> nullish mcs \<Longrightarrow>
   column_rows (JObj cts) mcs =
     Inr (map (\<lambda>c. \<lparr> col = c, type_cell = lookup (JObj cts) c,
                          missing_cell = lookup mcs c \<rparr>) (own_keys cts))"
  by (simp add: column_rows_def map_res_all_Inr column_row_present)

lemma ReportView_present:
  "truthy report \<Longrightarrow>
   ReportView report =
     and_then (featureData (get_own report ''model_metrics'')) (\<lambda>fd.
     and_then (column_rows (get_own report ''column_types'') (get_own report ''missing_counts'')) (\<lambda>trs.
     and_then (dropped_panel (get_own report ''dropped_columns'')) (\<lambda>dp.
     and_then (chart_panel fd) (\<lambda>chart.
       Inr (Dashboard
         \<lparr> total_rows = get_own report ''rows'',
           total_columns = get_own report ''columns'',
           detected_target_text = js_or (get_own report ''detected_target'') (JStr ''None''),
           cleaned_file = get_own report ''cleaned_path'',
           model_path_text = get_own report ''model_path'' \<rparr> trs dp chart)))))"
  by (simp add: ReportView_def destructure_def truthy_not_nullish summary_def)

lemma ReportView_renders:
  assumes "truthy report"
    and "featureData (get_own report ''model_metrics'') = Inr (JArr ys)"
    and "column_rows (get_own report ''column_types'') (get_own report ''missing_counts'') = Inr trs"
    and "dropped_panel (get_own report ''dropped_columns'') = Inr dp"
  shows "ReportView report =
     Inr (Dashboard
       \<lparr> total_rows = get_own report ''rows'',
         total_columns = get_own report ''columns'',
         detected_target_text = js_or (get_own report ''detected_target'') (JStr ''None''),
         cleaned_file = get_own report ''cleaned_path'',
         model_path_text = get_own report ''model_path'' \<rparr>
       trs dp (if ys = [] then None else Some (JArr ys)))"
  by (simp add: ReportView_present assms chart_panel_array)

lemma ReportView_returns:
  assumes "truthy report" and "ReportView report = Inr v"
  shows "\<exists>ys trs dp.
     featureData (get_own report ''model_metrics'') = Inr (JArr ys) \<and>
     column_rows (get_own report ''column_types'') (get_own report ''missing_counts'') = Inr trs \<and>
     dropped_panel (get_own report ''dropped_columns'') = Inr dp \<and>
     v = Dashboard
       \<lparr> total_rows = get_own report ''rows'',
         total_columns = get_own report ''columns'',
         detected_target_text = js_or (get_own report ''detected_target'') (JStr ''None''),
         cleaned_file = get_own report ''cleaned_path'',
         model_path_text = get_own report ''model_path'' \<rparr>
       trs dp (if ys = [] then None else Some (JArr ys))"
proof -
  obtain fd where fd: "featureData (get_own report ''model_metrics'') = Inr fd"
    using assms by (cases "featureData (get_own report ''model_metrics'')")
      (simp_all add: ReportView_present)
  then obtain ys where ys: "fd = JArr ys"
    using featureData_array by blast
  obtain trs where trs:
    "column_rows (get_own report ''column_types'') (get_own report ''missing_counts'') = Inr trs"
    using assms fd
    by (cases "column_rows (get_own report ''column_types'') (get_own report ''missing_counts'')")
      (simp_all add: ReportView_present)
  obtain dp where dp: "dropped_panel (get_own report ''dropped_columns'') = Inr dp"
    using assms fd trs
    by (cases "dropped_panel (get_own report ''dropped_columns'')")
      (simp_all add: ReportView_present)
  show ?thesis
    using assms(2) ReportView_renders [OF assms(1) fd [unfolded ys] trs dp] fd ys trs dp
    by simp
qed

lemma featureData_metrics_ab:
  "featureData metrics_ab =
     Inr (JArr [JObj [(''name'', JStr ''a''), (''importance'', JNum (3 / 10))],
                JObj [(''name'', JStr ''b''), (''importance'', JNum (9 / 10))]])"
  by (simp add: metrics_ab_def featureData_def feature_item_def get_def js_or_def)

lemma report_plain_parts:
  "truthy report_plain"
  "featureData (get_own report_plain ''model_metrics'') = Inr (JArr [])"
  "column_rows (get_own report_plain ''column_types'') (get_own report_plain ''missing_counts'')
     = Inr [\<lparr> col = ''age'', type_cell = Val (JStr ''int''), missing_cell = Val (JNum 0) \<rparr>]"
  "dropped_panel (get_own report_plain ''dropped_columns'') = Inr NoColumnsDropped"
  by (simp_all add: report_plain_def featureData_nullish column_rows_object dropped_panel_array
      own_keys_def is_index_def array_index_def digit_val_def lookup_def
      object_prototype_names_def)

lemma report_trained_parts:
  "truthy report_trained"
  "get_own report_trained ''model_metrics'' = metrics_ab"
  "column_rows (get_own report_trained ''column_types'') (get_own report_trained ''missing_counts'')
     = Inr [\<lparr> col = ''age'', type_cell = Val (JStr ''int''), missing_cell = Val (JNum 0) \<rparr>,
            \<lparr> col = ''name'', type_cell = Val (JStr ''str''), missing_cell = Val JUndefined \<rparr>]"
  "dropped_panel (get_own report_trained ''dropped_columns'')
     = Inr (DroppedList [JStr ''id'', JStr ''notes''])"
  by (simp_all add: report_trained_def column_rows_object dropped_panel_array
      own_keys_def is_index_def array_index_def digit_val_def lookup_def
      object_prototype_names_def)

lemma report_numbered_parts:
  "truthy report_numbered"
  "featureData (get_own report_numbered ''model_metrics'') = Inr (JArr [])"
  "column_rows (get_own report_numbered ''column_types'') (get_own report_numbered ''missing_counts'')
     = Inr [\<lparr> col = ''1'', type_cell = Val (JStr ''str''), missing_cell = Val (JNum 2) \<rparr>,
            \<lparr> col = ''b'', type_cell = Val (JStr ''int''), missing_cell = Val (JNum 0) \<rparr>]"
  "dropped_panel (get_own report_numbered ''dropped_columns'') = Inr NoColumnsDropped"
  by (simp_all add: report_numbered_def featureData_nullish column_rows_object dropped_panel_array
      own_keys_def is_index_def array_index_def digit_val_def index_val_def lookup_def
      object_prototype_names_def)

lemma report_series_no_dropped_parts:
  "truthy report_series_no_dropped"
  "featureData (get_own report_series_no_dropped ''model_metrics'') =
     Inr (JArr [JObj [(''name'', JStr ''age''), (''importance'', JNum (8 / 10))]])"
  "get_own report_series_no_dropped ''dropped_columns'' = JUndefined"
  by (simp_all add: report_series_no_dropped_def featureData_def feature_item_def get_def
      js_or_def)

lemma report_inherited_parts:
  "truthy report_inherited"
  "featureData (get_own report_inherited ''model_metrics'') = Inr (JArr [])"
  "column_rows (get_own report_inherited ''column_types'') (get_own report_inherited ''missing_counts'')
     = Inr [\<lparr> col = ''constructor'', type_cell = Val (JStr ''str''),
              missing_cell = Inherited ''constructor'' \<rparr>]"
  "dropped_panel (get_own report_inherited ''dropped_columns'') = Inr NoColumnsDropped"
  by (simp_all add: report_inherited_def featureData_nullish column_rows_object dropped_panel_array
      own_keys_def is_index_def array_index_def digit_val_def lookup_def
      object_prototype_names_def)

lemma report_gap_no_dropped_parts:
  "truthy report_gap_no_dropped"
  "get_own report_gap_no_dropped ''dropped_columns'' = JUndefined"
  by (simp_all add: report_gap_no_dropped_def)

lemma ReportView_no_dropped:
  assumes "truthy report" and "nullish (get_own report ''dropped_columns'')"
  shows "ReportView report = Inl TypeError"
proof (cases "featureData (get_own report ''model_metrics'')")
  case (Inl e)
  then show ?thesis
    using assms(1) featureData_error [OF Inl] by (simp add: ReportView_present)
next
  case fd: (Inr fd)
  show ?thesis
  proof (cases "column_rows (get_own report ''column_types'') (get_own report ''missing_counts'')")
    case (Inl e)
    then show ?thesis
      using assms(1) fd column_rows_error [OF Inl] by (simp add: ReportView_present)
  next
    case (Inr trs)
    then show ?thesis
      using assms fd by (simp add: ReportView_present dropped_panel_nullish)
  qed
qed

lemma report_no_dropped_parts:
  "truthy report_no_dropped"
  "get_own report_no_dropped ''dropped_columns'' = JUndefined"
  by (simp_all add: report_no_dropped_def)

lemma filter_index_own_keys:
  "filter is_index (own_keys ps) = sort_key index_val (filter is_index (map fst ps))"
  by (simp add: own_keys_def filter_sort)

lemma filter_other_own_keys:
  "filter (\<lambda>k. \<not> is_index k) (own_keys ps) = filter (\<lambda>k. \<not> is_index k) (map fst ps)"
  by (simp add: own_keys_def filter_sort)

lemma sorted_index_own_keys:
  "sorted (map index_val (filter is_index (own_keys ps)))"
  by (simp add: filter_index_own_keys)

section \<open>The store: every step refines the function on trees\<close>

text \<open>
  Appending cells to a store changes no tree a value holds. Reads in the store agree
  with reads in the tree; each step that creates cells only appends, and returns a value
  that holds the tree its counterpart on trees returns.
\<close>

lemma Rep_prefix:
  "Rep h v j \<Longrightarrow> prefix h h' \<Longrightarrow> Rep h' v j"
proof (induction rule: Rep.induct)
  case (Rep_Arr a vs js)
  from \<open>prefix h h'\<close> \<open>a < length h\<close> have "a < length h'" "h' ! a = h ! a"
    by (auto simp: prefix_def nth_append)
  moreover have "list_all2 (Rep h') vs js"
    using Rep_Arr.IH Rep_Arr.prems by (auto elim!: list_all2_mono)
  ultimately show ?case
    using Rep_Arr.hyps by (auto intro: Rep.Rep_Arr)
next
  case (Rep_Obj a ps qs)
  from \<open>prefix h h'\<close> \<open>a < length h\<close> have "a < length h'" "h' ! a = h ! a"
    by (auto simp: prefix_def nth_append)
  moreover have "list_all2 (Rep h') (map snd ps) (map snd qs)"
    using Rep_Obj.IH Rep_Obj.prems by (auto elim!: list_all2_mono)
  ultimately show ?case
    using Rep_Obj.hyps by (auto intro: Rep.Rep_Obj)
qed (auto intro: Rep.intros)

lemma Rep_truthy: "Rep h v j \<Longrightarrow> truthy_h v = truthy j"
  by (induction rule: Rep.induct) simp_all

lemma Rep_nullish: "Rep h v j \<Longrightarrow> nullish_h v = nullish j"
  by (induction rule: Rep.induct) simp_all

lemma Rep_gt_zero: "Rep h v j \<Longrightarrow> gt_zero_h v = gt_zero j"
  by (induction rule: Rep.induct) simp_all


lemma Rep_map_of:
  assumes "map fst ps = map fst qs" and "list_all2 (Rep h) (map snd ps) (map snd qs)"
  shows "rel_option (Rep h) (map_of ps k) (map_of qs k)"
  using assms
proof (induction ps arbitrary: qs)
  case Nil
  then show ?case by simp
next
  case (Cons p ps)
  then obtain q qs' where qs: "qs = q # qs'"
    by (cases qs) auto
  with Cons.prems have "fst p = fst q" "Rep h (snd p) (snd q)"
      "map fst ps = map fst qs'" "list_all2 (Rep h) (map snd ps) (map snd qs')"
    by auto
  with Cons.IH [of qs'] qs show ?case
    by (cases p; cases q) auto
qed

lemma Rep_get_own: "Rep h v j \<Longrightarrow> Rep h (get_own_h h v k) (get_own j k)"
proof (induction rule: Rep.induct)
  case (Rep_Arr a vs js)
  then have len: "length vs = length js" and nth: "\<And>i. i < length vs \<Longrightarrow> Rep h (vs ! i) (js ! i)"
    by (auto simp: list_all2_conv_all_nth)
  show ?case
    using Rep_Arr.hyps(1,2) len nth
    by (auto intro: Rep.intros split: option.splits)
next
  case (Rep_Obj a ps qs)
  have "rel_option (Rep h) (map_of ps k) (map_of qs k)"
    using Rep_Obj.hyps(3) Rep_Obj.IH
    by (intro Rep_map_of) (auto elim!: list_all2_mono)
  then show ?case
    using Rep_Obj.hyps(1,2)
    by (cases "map_of ps k"; cases "map_of qs k") (auto intro: Rep.intros)
qed (auto intro: Rep.intros split: option.splits)

lemma Rep_get: "Rep h v j \<Longrightarrow> rel_sum (=) (Rep h) (get_h h v k) (get j k)"
  by (simp add: get_h_def get_def Rep_nullish Rep_get_own)

lemma Rep_Object_keys: "Rep h v j \<Longrightarrow> Object_keys_h h v = Object_keys j"
proof (induction rule: Rep.induct)
  case (Rep_Arr a vs js)
  then show ?case by (auto simp: list_all2_conv_all_nth)
next
  case (Rep_Obj a ps qs)
  then show ?case by (simp add: own_keys_def)
qed simp_all

lemma Rep_elements:
  "Rep h v j \<Longrightarrow>
   rel_sum (=) (list_all2 (Rep h)) (elements_h h v) (case j of JArr js \<Rightarrow> Inr js | _ \<Rightarrow> Inl TypeError)"
proof (induction rule: Rep.induct)
  case (Rep_Arr a vs js)
  then show ?case by (auto elim!: list_all2_mono)
qed simp_all


lemma Rep_new_object:
  assumes "Rep h f jf" and "Rep h i ji"
  shows "Rep (h @ [HObj [(''name'', f), (''importance'', i)]]) (HRef (length h))
           (JObj [(''name'', jf), (''importance'', ji)])"
proof -
  let ?h = "h @ [HObj [(''name'', f), (''importance'', i)]]"
  have "Rep ?h f jf" "Rep ?h i ji"
    using assms by (auto intro: Rep_prefix)
  then show ?thesis
    by (intro Rep.Rep_Obj [where ps = "[(''name'', f), (''importance'', i)]"]) simp_all
qed

lemma feature_item_h_refines:
  assumes "Rep h item j" and "feature_item_h item h = (r, h')"
  shows "prefix h h' \<and> rel_sum (=) (Rep h') r (feature_item j)"
proof (cases "nullish j")
  case True
  then have "nullish_h item"
    using assms(1) by (simp add: Rep_nullish)
  with True assms(2) show ?thesis
    by (auto simp: feature_item_h_def feature_item_def then_h_def read_h_def get_h_def get_def)
next
  case False
  then have n: "\<not> nullish_h item"
    using assms(1) by (simp add: Rep_nullish)
  from n assms(2) have r: "r = Inr (HRef (length h))"
    and h': "h' = h @ [HObj [(''name'', get_own_h h item ''feature''),
                            (''importance'', get_own_h h item ''importance'')]]"
    by (auto simp: feature_item_h_def then_h_def read_h_def get_h_def new_h_def)
  have "Rep h' (HRef (length h))
      (JObj [(''name'', get_own j ''feature''), (''importance'', get_own j ''importance'')])"
    unfolding h' using assms(1) by (intro Rep_new_object Rep_get_own)
  with False r h' show ?thesis
    by (simp add: feature_item_def get_def)
qed

lemma each_feature_item_refines:
  "list_all2 (Rep h) xs js \<Longrightarrow> each_h feature_item_h xs h = (r, h') \<Longrightarrow>
   prefix h h' \<and> rel_sum (=) (list_all2 (Rep h')) r (map_res feature_item js)"
proof (induction xs arbitrary: js h r h')
  case Nil
  then show ?case by (auto simp: pure_h_def)
next
  case (Cons x xs)
  then obtain y ys where js: "js = y # ys" and xy: "Rep h x y" and rest: "list_all2 (Rep h) xs ys"
    by (cases js) auto
  obtain r1 h1 where step: "feature_item_h x h = (r1, h1)"
    by (cases "feature_item_h x h")
  from feature_item_h_refines [OF xy step]
  have p1: "prefix h h1" and rel1: "rel_sum (=) (Rep h1) r1 (feature_item y)"
    by simp_all
  show ?case
  proof (cases r1)
    case (Inl e)
    with rel1 have "feature_item y = Inl e"
      by (cases "feature_item y") simp_all
    moreover from Inl step Cons.prems(2) have "r = Inl e" "h' = h1"
      by (simp_all add: then_h_def)
    ultimately show ?thesis
      using p1 js by simp
  next
    case (Inr v)
    with rel1 obtain w where w: "feature_item y = Inr w" "Rep h1 v w"
      by (cases "feature_item y") simp_all
    obtain r2 h2 where loop: "each_h feature_item_h xs h1 = (r2, h2)"
      by (cases "each_h feature_item_h xs h1")
    have "list_all2 (Rep h1) xs ys"
      using rest p1 by (auto elim!: list_all2_mono intro: Rep_prefix)
    from Cons.IH [OF this loop]
    have p2: "prefix h1 h2" and rel2: "rel_sum (=) (list_all2 (Rep h2)) r2 (map_res feature_item ys)"
      by simp_all
    from Inr step loop Cons.prems(2)
    have out: "(r, h') = (case r2 of Inl e \<Rightarrow> (Inl e, h2) | Inr vs \<Rightarrow> (Inr (v # vs), h2))"
      by (auto simp: then_h_def pure_h_def split: sum.splits)
    have p: "prefix h h2"
      using p1 p2 by (rule prefix_order.trans)
    show ?thesis
    proof (cases r2)
      case (Inl e)
      with rel2 have "map_res feature_item ys = Inl e"
        by (cases "map_res feature_item ys") simp_all
      with Inl out w js p show ?thesis by simp
    next
      case r2: (Inr vs)
      with rel2 obtain ws where ws: "map_res feature_item ys = Inr ws" "list_all2 (Rep h2) vs ws"
        by (cases "map_res feature_item ys") simp_all
      have "Rep h2 v w"
        using w(2) p2 by (rule Rep_prefix)
      with r2 out w ws js p show ?thesis by simp
    qed
  qed
qed


lemma featureData_h_refines:
  assumes "Rep h mm j" and "featureData_h mm h = (r, h')"
  shows "prefix h h' \<and> rel_sum (=) (Rep h') r (featureData j)
     \<and> (\<forall>v. r = Inr v \<longrightarrow> (\<exists>a. v = HRef a \<and> length h \<le> a))"
proof -
  let ?v = "get_own_h h mm ''feature_importances''"
  let ?jv = "get_own j ''feature_importances''"
  have v: "Rep h ?v ?jv"
    using assms(1) by (rule Rep_get_own)
  have nm: "nullish_h mm = nullish j" and nv: "nullish_h ?v = nullish ?jv"
    using assms(1) v by (simp_all add: Rep_nullish)
  have empty_arr: "Rep (h @ [HArr []]) (HRef (length h)) (JArr [])"
    by (intro Rep.Rep_Arr [where vs = "[]"]) simp_all
  show ?thesis
  proof (cases "nullish j \<or> nullish ?jv")
    case True
    then have "featureData j = Inr (JArr [])"
      by (auto simp: featureData_def js_or_def)
    moreover from True nm nv assms(2) have "r = Inr (HRef (length h))" "h' = h @ [HArr []]"
      by (auto simp: featureData_h_def then_h_def pure_h_def new_h_def split: if_splits)
    ultimately show ?thesis
      using empty_arr by simp
  next
    case False
    then have pres: "\<not> nullish j" "\<not> nullish ?jv" "\<not> nullish_h mm" "\<not> nullish_h ?v"
      using nm nv by simp_all
    have el: "rel_sum (=) (list_all2 (Rep h)) (elements_h h ?v)
        (case ?jv of JArr js \<Rightarrow> Inr js | _ \<Rightarrow> Inl TypeError)"
      using v by (rule Rep_elements)
    show ?thesis
    proof (cases "elements_h h ?v")
      case (Inl e)
      with el have e: "e = TypeError" and notarr: "\<And>js. ?jv \<noteq> JArr js"
        by (auto split: jsval.splits)
      from notarr have "array_map ?jv feature_item = Inl TypeError"
        by (cases ?jv) auto
      then have "featureData j = Inl TypeError"
        using pres by (simp add: featureData_def)
      moreover from Inl e pres assms(2) have "r = Inl TypeError" "h' = h"
        by (auto simp: featureData_h_def then_h_def pure_h_def read_h_def)
      ultimately show ?thesis by simp
    next
      case (Inr xs)
      with el obtain js where js: "?jv = JArr js" "list_all2 (Rep h) xs js"
        by (auto split: jsval.splits)
      obtain r1 h1 where loop: "each_h feature_item_h xs h = (r1, h1)"
        by (cases "each_h feature_item_h xs h")
      from each_feature_item_refines [OF js(2) loop]
      have p1: "prefix h h1" and rel1: "rel_sum (=) (list_all2 (Rep h1)) r1 (map_res feature_item js)"
        by simp_all
      show ?thesis
      proof (cases r1)
        case (Inl e)
        with rel1 have "map_res feature_item js = Inl e"
          by (cases "map_res feature_item js") simp_all
        then have "featureData j = Inl e"
          using pres js(1) by (simp add: featureData_def)
        moreover from Inl Inr loop pres assms(2) have "r = Inl e" "h' = h1"
          by (auto simp: featureData_h_def then_h_def pure_h_def read_h_def)
        ultimately show ?thesis
          using p1 by simp
      next
        case ys: (Inr ys)
        with rel1 obtain ws where ws: "map_res feature_item js = Inr ws" "list_all2 (Rep h1) ys ws"
          by (cases "map_res feature_item js") simp_all
        then have pure: "featureData j = Inr (JArr ws)"
          using pres js(1) by (simp add: featureData_def js_or_def)
        from ys Inr loop pres assms(2)
        have r: "r = Inr (HRef (length h1))" and h': "h' = h1 @ [HArr ys]"
          by (auto simp: featureData_h_def then_h_def pure_h_def read_h_def new_h_def)
        have "list_all2 (Rep h') ys ws"
          unfolding h' using ws(2) by (auto elim!: list_all2_mono intro: Rep_prefix)
        then have "Rep h' (HRef (length h1)) (JArr ws)"
          unfolding h' by (intro Rep.Rep_Arr [where vs = ys]) simp_all
        moreover have "prefix h h'"
          using p1 unfolding h' by (auto simp: prefix_def)
        moreover have "length h \<le> length h1"
          using p1 by (rule prefix_length_le)
        ultimately show ?thesis
          using r pure by simp
      qed
    qed
  qed
qed


lemma map_res_rel:
  assumes "\<And>c. c \<in> set ks \<Longrightarrow> rel_sum (=) R (f c) (g c)"
  shows "rel_sum (=) (list_all2 R) (map_res f ks) (map_res g ks)"
  using assms
proof (induction ks)
  case Nil
  then show ?case by simp
next
  case (Cons k ks)
  have head: "rel_sum (=) R (f k) (g k)" and tail: "rel_sum (=) (list_all2 R) (map_res f ks) (map_res g ks)"
    using Cons by simp_all
  show ?case
  proof (cases "f k")
    case (Inl e)
    with head show ?thesis by (cases "g k") simp_all
  next
    case (Inr y)
    with head obtain z where "g k = Inr z" "R y z"
      by (cases "g k") simp_all
    with Inr tail show ?thesis
      by (cases "map_res f ks"; cases "map_res g ks") simp_all
  qed
qed

lemma Rep_has_own: "Rep h v j \<Longrightarrow> has_own_h h v k = has_own j k"
proof (induction rule: Rep.cases)
  case (Rep_Arr a vs js)
  then have "length vs = length js"
    by (simp add: list_all2_lengthD)
  with Rep_Arr show ?case by (simp split: option.splits)
next
  case (Rep_Obj a ps qs)
  then have "rel_option (Rep h) (map_of ps k) (map_of qs k)"
    by (intro Rep_map_of) simp_all
  with Rep_Obj show ?case
    by (cases "map_of ps k"; cases "map_of qs k") simp_all
qed simp_all

lemma Rep_plain: "Rep h v j \<Longrightarrow> plain_h h v = (case j of JObj qs \<Rightarrow> True | _ \<Rightarrow> False)"
  by (induction rule: Rep.cases) simp_all

lemma Rep_lookup:
  assumes "Rep h v j"
  shows "RepCell h (lookup_h h v k) (lookup j k)"
proof (cases "has_own j k")
  case True
  then show ?thesis
    using assms by (simp add: lookup_h_def lookup_def Rep_has_own Rep_get_own)
next
  case False
  then show ?thesis
    using assms Rep_plain [OF assms]
    by (cases j) (simp_all add: lookup_h_def lookup_def Rep_has_own Rep.Rep_Undefined)
qed

lemma Rep_member: "Rep h v j \<Longrightarrow> rel_sum (=) (RepCell h) (member_h h v k) (member j k)"
  by (simp add: member_h_def member_def Rep_nullish Rep_lookup)

lemma column_row_h_refines:
  assumes "Rep h cts jc" and "Rep h mcs jm"
  shows "rel_sum (=) (RepRow h) (column_row_h h cts mcs c) (column_row jc jm c)"
proof -
  have t: "rel_sum (=) (RepCell h) (member_h h cts c) (member jc c)"
    and m: "rel_sum (=) (RepCell h) (member_h h mcs c) (member jm c)"
    using assms by (simp_all add: Rep_member)
  show ?thesis
    using t m
    by (cases "member_h h cts c"; cases "member jc c"; cases "member_h h mcs c"; cases "member jm c")
      (simp_all add: column_row_h_def column_row_def RepRow_def)
qed

lemma column_rows_h_refines:
  assumes "Rep h cts jc" and "Rep h mcs jm"
  shows "rel_sum (=) (list_all2 (RepRow h)) (column_rows_h cts mcs h) (column_rows jc jm)"
proof (cases "Object_keys jc")
  case (Inl e)
  then show ?thesis
    using assms(1) by (simp add: column_rows_h_def column_rows_def Rep_Object_keys)
next
  case (Inr ks)
  have "rel_sum (=) (list_all2 (RepRow h)) (map_res (column_row_h h cts mcs) ks)
      (map_res (column_row jc jm) ks)"
    by (intro map_res_rel column_row_h_refines assms)
  with Inr show ?thesis
    using assms(1) by (simp add: column_rows_h_def column_rows_def Rep_Object_keys)
qed

lemma Rep_coerces: "Rep h v j \<Longrightarrow> coerces_h h v = key_coercible j"
proof (induction rule: Rep.induct)
  case (Rep_Arr a vs js)
  have "list_all (coerces_h h) vs = list_all key_coercible js"
    using Rep_Arr.IH
    by (induction vs js rule: list_all2_induct) simp_all
  then show ?case
    using Rep_Arr.hyps(1,2) by (auto simp: coerces_h.simps)
next
  case (Rep_Obj a ps qs)
  have "rel_option (Rep h) (map_of ps ''toString'') (map_of qs ''toString'')"
    using Rep_Obj.hyps(3) Rep_Obj.IH
    by (intro Rep_map_of) (auto elim!: list_all2_mono)
  then have "(map_of ps ''toString'' = None) = (map_of qs ''toString'' = None)"
    by (cases "map_of ps ''toString''"; cases "map_of qs ''toString''") simp_all
  then show ?case
    using Rep_Obj.hyps(1,2) by (auto simp: coerces_h.simps)
qed (simp_all add: coerces_h.simps)

lemma li_item_h_refines: "Rep h v j \<Longrightarrow> rel_sum (=) (Rep h) (li_item_h h v) (li_item j)"
  by (simp add: li_item_h_def li_item_def Rep_coerces)

lemma li_items_h_refines:
  "list_all2 (Rep h) vs js \<Longrightarrow>
   rel_sum (=) (list_all2 (Rep h)) (map_res (li_item_h h) vs) (map_res li_item js)"
proof (induction vs js rule: list_all2_induct)
  case Nil
  then show ?case by simp
next
  case (Cons v vs j js)
  have head: "rel_sum (=) (Rep h) (li_item_h h v) (li_item j)"
    using Cons.hyps(1) by (rule li_item_h_refines)
  show ?case
    using head Cons.IH
    by (cases "li_item_h h v"; cases "li_item j";
        cases "map_res (li_item_h h) vs"; cases "map_res li_item js") simp_all
qed

lemma dropped_panel_h_refines:
  assumes "Rep h dcs jd"
  shows "rel_sum (=) (RepDropped h) (dropped_panel_h dcs h) (dropped_panel jd)"
proof -
  have len: "rel_sum (=) (Rep h) (get_h h dcs ''length'') (get jd ''length'')"
    using assms by (rule Rep_get)
  show ?thesis
  proof (cases "get jd ''length''")
    case (Inl e)
    with len show ?thesis
      by (cases "get_h h dcs ''length''") (simp_all add: dropped_panel_h_def dropped_panel_def)
  next
    case (Inr n)
    with len obtain m where m: "get_h h dcs ''length'' = Inr m" "Rep h m n"
      by (cases "get_h h dcs ''length''") simp_all
    have gz: "gt_zero_h m = gt_zero n"
      using m(2) by (rule Rep_gt_zero)
    have el: "rel_sum (=) (list_all2 (Rep h)) (elements_h h dcs)
        (case jd of JArr js \<Rightarrow> Inr js | _ \<Rightarrow> Inl TypeError)"
      using assms by (rule Rep_elements)
    have am: "rel_sum (=) (list_all2 (Rep h))
        (and_then (elements_h h dcs) (map_res (li_item_h h))) (array_map jd li_item)"
      using el li_items_h_refines [of h]
      by (cases "elements_h h dcs"; cases jd) auto
    show ?thesis
    proof (cases "gt_zero n")
      case (Inl e)
      with Inr m gz show ?thesis
        by (simp add: dropped_panel_h_def dropped_panel_def)
    next
      case pos: (Inr positive)
      show ?thesis
      proof (cases positive)
        case False
        with pos Inr m gz show ?thesis
          by (simp add: dropped_panel_h_def dropped_panel_def)
      next
        case True
        have "dropped_panel_h dcs h =
            and_then (and_then (elements_h h dcs) (map_res (li_item_h h)))
              (\<lambda>lis. Inr (HDroppedList lis))"
          using True pos Inr m gz
          by (cases "elements_h h dcs") (simp_all add: dropped_panel_h_def)
        moreover have "dropped_panel jd =
            and_then (array_map jd li_item) (\<lambda>lis. Inr (DroppedList lis))"
          using True pos Inr by (simp add: dropped_panel_def)
        ultimately show ?thesis
          using am
          by (cases "and_then (elements_h h dcs) (map_res (li_item_h h))";
              cases "array_map jd li_item") simp_all
      qed
    qed
  qed
qed

lemma chart_panel_h_refines:
  assumes "Rep h fd jfd"
  shows "rel_sum (=) (rel_option (Rep h)) (chart_panel_h fd h) (chart_panel jfd)"
proof -
  have len: "rel_sum (=) (Rep h) (get_h h fd ''length'') (get jfd ''length'')"
    using assms by (rule Rep_get)
  show ?thesis
  proof (cases "get jfd ''length''")
    case (Inl e)
    with len show ?thesis
      by (cases "get_h h fd ''length''") (simp_all add: chart_panel_h_def chart_panel_def)
  next
    case (Inr n)
    with len obtain m where m: "get_h h fd ''length'' = Inr m" "Rep h m n"
      by (cases "get_h h fd ''length''") simp_all
    have gz: "gt_zero_h m = gt_zero n"
      using m(2) by (rule Rep_gt_zero)
    show ?thesis
      using Inr m gz assms
      by (cases "gt_zero n") (simp_all add: chart_panel_h_def chart_panel_def)
  qed
qed

lemma truthy_h_not_nullish: "truthy_h v \<Longrightarrow> \<not> nullish_h v"
  by (cases v) simp_all

lemma ReportView_h_present:
  assumes "truthy_h report" and "featureData_h (get_own_h h report ''model_metrics'') h = (r1, h1)"
  shows "ReportView_h report h =
     (case r1 of
        Inl e \<Rightarrow> Inl e
      | Inr fd \<Rightarrow>
          and_then (column_rows_h (get_own_h h report ''column_types'')
                      (get_own_h h report ''missing_counts'') h1) (\<lambda>trs.
          and_then (dropped_panel_h (get_own_h h report ''dropped_columns'') h1) (\<lambda>dp.
          and_then (chart_panel_h fd h1) (\<lambda>chart.
            Inr (HDashboard
              \<lparr> h_total_rows = get_own_h h report ''rows'',
                h_total_columns = get_own_h h report ''columns'',
                h_detected_target_text =
                  (if truthy_h (get_own_h h report ''detected_target'')
                   then get_own_h h report ''detected_target'' else HStr ''None''),
                h_cleaned_file = get_own_h h report ''cleaned_path'',
                h_model_path_text = get_own_h h report ''model_path'' \<rparr> trs dp chart)))),
      h1)"
  using assms
  by (auto simp: ReportView_h_def then_h_def read_h_def pure_h_def destructure_h_def
      summary_h_def truthy_h_not_nullish and_then_def split: sum.splits)

lemma ReportView_h_refines:
  assumes "Rep h report j" and "ReportView_h report h = (r, h')"
  shows "prefix h h' \<and> RepOut h' r (ReportView j)
     \<and> (\<forall>s trs dp d. r = Inr (HDashboard s trs dp (Some d)) \<longrightarrow>
           (\<exists>a. d = HRef a \<and> length h \<le> a))"
proof (cases "truthy j")
  case False
  then have "\<not> truthy_h report"
    using assms(1) by (simp add: Rep_truthy)
  with False assms(2) show ?thesis
    by (auto simp: ReportView_h_def ReportView_def pure_h_def RepOut_def)
next
  case True
  then have t: "truthy_h report"
    using assms(1) by (simp add: Rep_truthy)
  let ?mm = "get_own_h h report ''model_metrics''"
  obtain r1 h1 where fd: "featureData_h ?mm h = (r1, h1)"
    by (cases "featureData_h ?mm h")
  have "Rep h ?mm (get_own j ''model_metrics'')"
    using assms(1) by (rule Rep_get_own)
  from featureData_h_refines [OF this fd]
  have p: "prefix h h1"
    and rel1: "rel_sum (=) (Rep h1) r1 (featureData (get_own j ''model_metrics''))"
    and fresh: "\<forall>v. r1 = Inr v \<longrightarrow> (\<exists>a. v = HRef a \<and> length h \<le> a)"
    by simp_all
  note out = ReportView_h_present [OF t fd]
  have h': "h' = h1"
    using out assms(2) by simp
  show ?thesis
  proof (cases r1)
    case (Inl e)
    with rel1 have "featureData (get_own j ''model_metrics'') = Inl e"
      by (cases "featureData (get_own j ''model_metrics'')") simp_all
    then have "ReportView j = Inl e"
      using True by (simp add: ReportView_present)
    moreover have "r = Inl e"
      using out assms(2) Inl by simp
    ultimately show ?thesis
      using p h' by (simp add: RepOut_def)
  next
    case (Inr v)
    with rel1 obtain jfd where jfd: "featureData (get_own j ''model_metrics'') = Inr jfd" "Rep h1 v jfd"
      by (cases "featureData (get_own j ''model_metrics'')") simp_all
    from fresh Inr obtain a where a: "v = HRef a" "length h \<le> a"
      by blast
    have rep1: "\<And>k. Rep h1 (get_own_h h report k) (get_own j k)"
      using Rep_get_own [OF assms(1)] p by (rule Rep_prefix)
    have "Rep h1 report j"
      using assms(1) p by (rule Rep_prefix)
    have sm: "RepSummary h1
       \<lparr> h_total_rows = get_own_h h report ''rows'',
         h_total_columns = get_own_h h report ''columns'',
         h_detected_target_text =
           (if truthy_h (get_own_h h report ''detected_target'')
            then get_own_h h report ''detected_target'' else HStr ''None''),
         h_cleaned_file = get_own_h h report ''cleaned_path'',
         h_model_path_text = get_own_h h report ''model_path'' \<rparr>
       \<lparr> total_rows = get_own j ''rows'',
         total_columns = get_own j ''columns'',
         detected_target_text = js_or (get_own j ''detected_target'') (JStr ''None''),
         cleaned_file = get_own j ''cleaned_path'',
         model_path_text = get_own j ''model_path'' \<rparr>"
      using Rep_truthy [OF rep1 [of "''detected_target''"]]
      by (simp add: RepSummary_def js_or_def rep1 Rep.Rep_Str)
    have rows: "rel_sum (=) (list_all2 (RepRow h1))
        (column_rows_h (get_own_h h report ''column_types'') (get_own_h h report ''missing_counts'') h1)
        (column_rows (get_own j ''column_types'') (get_own j ''missing_counts''))"
      by (intro column_rows_h_refines rep1)
    have dropped: "rel_sum (=) (RepDropped h1)
        (dropped_panel_h (get_own_h h report ''dropped_columns'') h1)
        (dropped_panel (get_own j ''dropped_columns''))"
      by (intro dropped_panel_h_refines rep1)
    have chart: "rel_sum (=) (rel_option (Rep h1)) (chart_panel_h v h1) (chart_panel jfd)"
      using jfd(2) by (rule chart_panel_h_refines)
    have r: "r = and_then (column_rows_h (get_own_h h report ''column_types'')
                      (get_own_h h report ''missing_counts'') h1) (\<lambda>trs.
          and_then (dropped_panel_h (get_own_h h report ''dropped_columns'') h1) (\<lambda>dp.
          and_then (chart_panel_h v h1) (\<lambda>chart.
            Inr (HDashboard
              \<lparr> h_total_rows = get_own_h h report ''rows'',
                h_total_columns = get_own_h h report ''columns'',
                h_detected_target_text =
                  (if truthy_h (get_own_h h report ''detected_target'')
                   then get_own_h h report ''detected_target'' else HStr ''None''),
                h_cleaned_file = get_own_h h report ''cleaned_path'',
                h_model_path_text = get_own_h h report ''model_path'' \<rparr> trs dp chart))))"
      using out assms(2) Inr by simp
    have pure: "ReportView j =
          and_then (column_rows (get_own j ''column_types'') (get_own j ''missing_counts'')) (\<lambda>trs.
          and_then (dropped_panel (get_own j ''dropped_columns'')) (\<lambda>dp.
          and_then (chart_panel jfd) (\<lambda>chart.
            Inr (Dashboard
              \<lparr> total_rows = get_own j ''rows'',
                total_columns = get_own j ''columns'',
                detected_target_text = js_or (get_own j ''detected_target'') (JStr ''None''),
                cleaned_file = get_own j ''cleaned_path'',
                model_path_text = get_own j ''model_path'' \<rparr> trs dp chart))))"
      using True jfd(1) by (simp add: ReportView_present)
    have rel: "RepOut h1 r (ReportView j)"
      unfolding r pure RepOut_def using rows dropped chart sm
      by (cases "column_rows_h (get_own_h h report ''column_types'') (get_own_h h report ''missing_counts'') h1";
          cases "column_rows (get_own j ''column_types'') (get_own j ''missing_counts'')";
          cases "dropped_panel_h (get_own_h h report ''dropped_columns'') h1";
          cases "dropped_panel (get_own j ''dropped_columns'')";
          cases "chart_panel_h v h1"; cases "chart_panel jfd") simp_all
    have data: "d = v" if "r = Inr (HDashboard s trs dp (Some d))" for s trs dp d
      using that unfolding r
      by (auto simp: and_then_def chart_panel_h_def split: sum.splits if_splits)
    show ?thesis
      using p h' rel data a by blast
  qed
qed


text \<open>A value holds at most one tree: \<open>Rep h\<close> is a partial function.\<close>

lemma Rep_unique: "Rep h v j \<Longrightarrow> Rep h v j' \<Longrightarrow> j = j'"
proof (induction arbitrary: j' rule: Rep.induct)
  case (Rep_Arr a vs js)
  from Rep_Arr.prems Rep_Arr.hyps(1,2) obtain js' where j': "j' = JArr js'" "list_all2 (Rep h) vs js'"
    by (auto elim: Rep.cases)
  have "js = js'"
    using Rep_Arr.IH j'(2)
  proof (induction vs js arbitrary: js' rule: list_all2_induct)
    case Nil
    then show ?case by simp
  next
    case (Cons x xs y ys)
    then show ?case by (cases js') auto
  qed
  with j' show ?case by simp
next
  case (Rep_Obj a ps qs)
  from Rep_Obj.prems Rep_Obj.hyps(1,2) obtain qs' where j': "j' = JObj qs'"
      "map fst ps = map fst qs'" "list_all2 (Rep h) (map snd ps) (map snd qs')"
    by (auto elim: Rep.cases)
  have "map snd qs = map snd qs'"
    using Rep_Obj.IH j'(3)
  proof (induction "map snd ps" "map snd qs" arbitrary: ps qs qs' rule: list_all2_induct)
    case Nil
    then show ?case by simp
  next
    case (Cons x xs y ys)
    then show ?case
      by (cases ps; cases qs; cases qs') auto
  qed
  moreover have "map fst qs = map fst qs'"
    using Rep_Obj.hyps(3) j'(2) by simp
  ultimately have "qs = qs'"
    by (metis zip_map_fst_snd)
  with j' show ?case by simp
qed (auto elim: Rep.cases)

inductive_simps Rep_array: "Rep h (HRef a) (JArr js)"

inductive_simps Rep_object: "Rep h (HRef a) (JObj qs)"

lemma Rep_charted: "Rep store_charted (HRef 6) report_charted"
  by (simp add: store_charted_def report_charted_def Rep_array Rep_object Rep.intros)

lemma run_charted:
  "ReportView_h (HRef 6) store_charted = (Inr (view_charted 8), store_charted @ series_cells 7)"
  by (simp add: ReportView_h_def store_charted_def view_charted_def series_cells_def then_h_def
      read_h_def pure_h_def new_h_def destructure_h_def summary_h_def featureData_h_def
      feature_item_h_def get_h_def column_rows_h_def column_row_h_def dropped_panel_h_def
      chart_panel_h_def is_index_def array_index_def digit_val_def member_h_def lookup_h_def
      object_prototype_names_def)

lemma run_charted_again:
  "ReportView_h (HRef 6) (store_charted @ series_cells 7) =
     (Inr (view_charted 10), (store_charted @ series_cells 7) @ series_cells 9)"
  by (simp add: ReportView_h_def store_charted_def view_charted_def series_cells_def then_h_def
      read_h_def pure_h_def new_h_def destructure_h_def summary_h_def featureData_h_def
      feature_item_h_def get_h_def column_rows_h_def column_row_h_def dropped_panel_h_def
      chart_panel_h_def is_index_def array_index_def digit_val_def member_h_def lookup_h_def
      object_prototype_names_def)

section \<open>The claims\<close>

text \<open>
  C1. \<open>featureData\<close> is applied to the \<^verbatim>\<open>model_metrics\<close> of a present report.
  When its \<^verbatim>\<open>feature_importances\<close> is an array of items (none of them
  \<^verbatim>\<open>undefined\<close> or \<^verbatim>\<open>null\<close>), the series is the array of the objects
  \<^verbatim>\<open>{name: item.feature, importance: item.importance}\<close>, one per item and in the
  order of the items: the same length, and at every position the name is the item's
  feature and the importance is the item's importance, unchanged. When
  \<^verbatim>\<open>model_metrics\<close> is absent the series is the empty array.
\<close>

theorem feature_series_maps_items_in_order:
  "(get_own mm ''feature_importances'' = JArr items \<and> (\<forall>item \<in> set items. \<not> nullish item)
      \<longrightarrow> (\<exists>series. featureData mm = Inr (JArr series)
            \<and> series = map (\<lambda>item. JObj [(''name'', get_own item ''feature''),
                                             (''importance'', get_own item ''importance'')]) items
            \<and> length series = length items
            \<and> (\<forall>i < length items.
                  get_own (series ! i) ''name'' = get_own (items ! i) ''feature''
                  \<and> get_own (series ! i) ''importance'' = get_own (items ! i) ''importance'')))
   \<and> (nullish mm \<longrightarrow> featureData mm = Inr (JArr []))"
proof (intro conjI impI)
  assume h: "get_own mm ''feature_importances'' = JArr items \<and> (\<forall>item \<in> set items. \<not> nullish item)"
  then have "featureData mm =
     Inr (JArr (map (\<lambda>item. JObj [(''name'', get_own item ''feature''),
                                     (''importance'', get_own item ''importance'')]) items))"
    by (intro featureData_list) simp_all
  then show "\<exists>series. featureData mm = Inr (JArr series)
            \<and> series = map (\<lambda>item. JObj [(''name'', get_own item ''feature''),
                                             (''importance'', get_own item ''importance'')]) items
            \<and> length series = length items
            \<and> (\<forall>i < length items.
                  get_own (series ! i) ''name'' = get_own (items ! i) ''feature''
                  \<and> get_own (series ! i) ''importance'' = get_own (items ! i) ''importance'')"
    by simp
next
  assume "nullish mm"
  then show "featureData mm = Inr (JArr [])"
    by (rule featureData_nullish)
qed

theorem feature_series_witness:
  "featureData metrics_ab =
     Inr (JArr [JObj [(''name'', JStr ''a''), (''importance'', JNum (3 / 10))],
                JObj [(''name'', JStr ''b''), (''importance'', JNum (9 / 10))]])
   \<and> featureData JUndefined = Inr (JArr [])
   \<and> featureData JNull = Inr (JArr [])"
  using feature_series_maps_items_in_order
      [of metrics_ab "[JObj [(''feature'', JStr ''a''), (''importance'', JNum (3 / 10))],
                       JObj [(''feature'', JStr ''b''), (''importance'', JNum (9 / 10))]]"]
    feature_series_maps_items_in_order [of JUndefined "[]"]
    feature_series_maps_items_in_order [of JNull "[]"]
  by (simp add: metrics_ab_def)

text \<open>
  C2. For an absent report (\<^verbatim>\<open>null\<close> or \<^verbatim>\<open>undefined\<close>) the component
  returns the empty-state view, whose paragraph tells the user to upload a dataset; it
  returns it without a fault, although no field of such a report can be read, and the
  view has none of the four panels.
\<close>

theorem absent_report_gives_empty_state:
  "nullish report \<longrightarrow>
     ReportView report = Inr (EmptyState empty_message)
     \<and> empty_message = ''No report data available yet. Upload a dataset first!''
     \<and> (\<forall>v. ReportView report = Inr v \<longrightarrow>
           summary_of v = None \<and> table_of v = None \<and> dropped_of v = None \<and> chart_of v = None)"
proof
  assume "nullish report"
  then have "\<not> truthy report"
    using truthy_not_nullish by blast
  then have "ReportView report = Inr (EmptyState empty_message)"
    by (simp add: ReportView_def)
  then show "ReportView report = Inr (EmptyState empty_message)
     \<and> empty_message = ''No report data available yet. Upload a dataset first!''
     \<and> (\<forall>v. ReportView report = Inr v \<longrightarrow>
           summary_of v = None \<and> table_of v = None \<and> dropped_of v = None \<and> chart_of v = None)"
    by (simp add: empty_message_def)
qed

theorem absent_report_witness:
  "ReportView JNull = Inr (EmptyState ''No report data available yet. Upload a dataset first!'')
   \<and> ReportView JUndefined = Inr (EmptyState ''No report data available yet. Upload a dataset first!'')"
  using absent_report_gives_empty_state [of JNull] absent_report_gives_empty_state [of JUndefined]
  by simp

text \<open>
  C10. The guard is \<^verbatim>\<open>!report\<close>: every falsy report (\<^verbatim>\<open>0\<close>, \<open>NaN\<close>, the
  empty string and \<^verbatim>\<open>false\<close> as well as \<^verbatim>\<open>null\<close> and
  \<^verbatim>\<open>undefined\<close>) gives the empty-state view, and no other report does: for a truthy
  report the component goes on to read the fields.
\<close>

theorem falsy_report_gives_empty_state:
  "(\<not> truthy report \<longrightarrow> ReportView report = Inr (EmptyState empty_message))
   \<and> (truthy report \<longrightarrow> ReportView report \<noteq> Inr (EmptyState empty_message))"
proof (intro conjI impI)
  assume "\<not> truthy report"
  then show "ReportView report = Inr (EmptyState empty_message)"
    by (simp add: ReportView_def)
next
  assume t: "truthy report"
  show "ReportView report \<noteq> Inr (EmptyState empty_message)"
  proof
    assume "ReportView report = Inr (EmptyState empty_message)"
    from ReportView_returns [OF t this] show False
      by auto
  qed
qed

theorem falsy_report_witness:
  "ReportView (JNum 0) = Inr (EmptyState empty_message)
   \<and> ReportView (JStr '''') = Inr (EmptyState empty_message)
   \<and> ReportView (JBool False) = Inr (EmptyState empty_message)
   \<and> ReportView JNaN = Inr (EmptyState empty_message)
   \<and> ReportView report_plain \<noteq> Inr (EmptyState empty_message)"
  using falsy_report_gives_empty_state [of "JNum 0"] falsy_report_gives_empty_state [of "JStr ''''"]
    falsy_report_gives_empty_state [of "JBool False"] falsy_report_gives_empty_state [of JNaN]
    falsy_report_gives_empty_state [of report_plain] report_plain_parts(1)
  by simp

text \<open>
  C3, as stated, fails. \<open>report_series_no_dropped\<close> is a present report whose series has
  length 1, but it has no \<^verbatim>\<open>dropped_columns\<close>: line 76 raises, no view is returned
  and so no chart card is rendered.
\<close>

theorem chart_panel_counterexample:
  "truthy report_series_no_dropped
   \<and> featureData (get_own report_series_no_dropped ''model_metrics'') =
       Inr (JArr [JObj [(''name'', JStr ''age''), (''importance'', JNum (8 / 10))]])
   \<and> ReportView report_series_no_dropped = Inl TypeError"
  using report_series_no_dropped_parts(1,2)
    ReportView_no_dropped [OF report_series_no_dropped_parts(1)]
  by (simp add: report_series_no_dropped_parts(3))

text \<open>
  C3, amended. For every present report, a view is returned exactly when the feature
  series, the rows of the column table and the dropped-columns card are each computed
  without a fault (so not, for instance, when \<^verbatim>\<open>dropped_columns\<close> is absent). In the
  view returned, the chart card is there exactly when the feature series has a positive
  length, and then the chart's data is the series; when \<^verbatim>\<open>feature_importances\<close> is
  absent or empty the view has no chart card at all.
\<close>

theorem chart_panel_iff_series_nonempty:
  assumes "truthy report"
  shows "(\<forall>fd trs dp.
           featureData (get_own report ''model_metrics'') = Inr fd
           \<and> column_rows (get_own report ''column_types'') (get_own report ''missing_counts'') = Inr trs
           \<and> dropped_panel (get_own report ''dropped_columns'') = Inr dp
           \<longrightarrow> (\<exists>v series. ReportView report = Inr v \<and> fd = JArr series
                 \<and> (chart_of v \<noteq> None \<longleftrightarrow> 0 < length series)
                 \<and> (0 < length series \<longrightarrow> chart_of v = Some (JArr series))
                 \<and> (nullish (get_own (get_own report ''model_metrics'') ''feature_importances'')
                      \<or> get_own (get_own report ''model_metrics'') ''feature_importances'' = JArr []
                     \<longrightarrow> chart_of v = None)))
     \<and> (\<forall>v. ReportView report = Inr v \<longrightarrow>
           (\<exists>fd trs dp.
              featureData (get_own report ''model_metrics'') = Inr fd
              \<and> column_rows (get_own report ''column_types'') (get_own report ''missing_counts'') = Inr trs
              \<and> dropped_panel (get_own report ''dropped_columns'') = Inr dp))"
proof (intro conjI allI impI)
  fix fd trs dp
  assume parts: "featureData (get_own report ''model_metrics'') = Inr fd
           \<and> column_rows (get_own report ''column_types'') (get_own report ''missing_counts'') = Inr trs
           \<and> dropped_panel (get_own report ''dropped_columns'') = Inr dp"
  then obtain series where fd: "fd = JArr series"
    using featureData_array by blast
  let ?fi = "get_own (get_own report ''model_metrics'') ''feature_importances''"
  have empty: "series = []" if "nullish ?fi \<or> ?fi = JArr []"
  proof -
    have "featureData (get_own report ''model_metrics'') = Inr (JArr [])"
      using that
    proof
      assume "nullish ?fi"
      then show ?thesis by (rule featureData_no_list)
    next
      assume "?fi = JArr []"
      then show ?thesis using featureData_list [of "get_own report ''model_metrics''" "[]"] by simp
    qed
    with parts fd show ?thesis by simp
  qed
  have "ReportView report =
     Inr (Dashboard
       \<lparr> total_rows = get_own report ''rows'',
         total_columns = get_own report ''columns'',
         detected_target_text = js_or (get_own report ''detected_target'') (JStr ''None''),
         cleaned_file = get_own report ''cleaned_path'',
         model_path_text = get_own report ''model_path'' \<rparr>
       trs dp (if series = [] then None else Some (JArr series)))"
    using assms parts fd by (intro ReportView_renders) simp_all
  with fd empty show "\<exists>v series. ReportView report = Inr v \<and> fd = JArr series
                 \<and> (chart_of v \<noteq> None \<longleftrightarrow> 0 < length series)
                 \<and> (0 < length series \<longrightarrow> chart_of v = Some (JArr series))
                 \<and> (nullish ?fi \<or> ?fi = JArr [] \<longrightarrow> chart_of v = None)"
    by auto
next
  fix v
  assume "ReportView report = Inr v"
  from ReportView_returns [OF assms this]
  show "\<exists>fd trs dp.
              featureData (get_own report ''model_metrics'') = Inr fd
              \<and> column_rows (get_own report ''column_types'') (get_own report ''missing_counts'') = Inr trs
              \<and> dropped_panel (get_own report ''dropped_columns'') = Inr dp"
    by blast
qed

theorem chart_panel_witness:
  "(\<exists>v. ReportView report_trained = Inr v
        \<and> chart_of v = Some (JArr [JObj [(''name'', JStr ''a''), (''importance'', JNum (3 / 10))],
                                    JObj [(''name'', JStr ''b''), (''importance'', JNum (9 / 10))]]))
   \<and> (\<exists>v. ReportView report_plain = Inr v \<and> chart_of v = None)"
proof
  have fd: "featureData (get_own report_trained ''model_metrics'') =
     Inr (JArr [JObj [(''name'', JStr ''a''), (''importance'', JNum (3 / 10))],
                JObj [(''name'', JStr ''b''), (''importance'', JNum (9 / 10))]])"
    by (simp only: report_trained_parts(2) featureData_metrics_ab)
  show "\<exists>v. ReportView report_trained = Inr v
        \<and> chart_of v = Some (JArr [JObj [(''name'', JStr ''a''), (''importance'', JNum (3 / 10))],
                                    JObj [(''name'', JStr ''b''), (''importance'', JNum (9 / 10))]])"
    using chart_panel_iff_series_nonempty [OF report_trained_parts(1)]
      fd report_trained_parts(3,4)
    by fastforce
  show "\<exists>v. ReportView report_plain = Inr v \<and> chart_of v = None"
    using chart_panel_iff_series_nonempty [OF report_plain_parts(1)] report_plain_parts(2,3,4)
    by fastforce
qed

text \<open>
  C7. For a present report whose \<^verbatim>\<open>dropped_columns\<close> is a sequence of strings, as the
  data model has it (and whose feature series and column table are computed without a
  fault), the component returns a view whose dropped-columns card holds the paragraph
  \<^verbatim>\<open>No columns dropped\<close> when the sequence has length 0, and otherwise the list with
  exactly one item per element, the items being the names in the order of the sequence.
\<close>

theorem dropped_columns_panel_lists_in_order:
  assumes "truthy report"
    and "get_own report ''dropped_columns'' = JArr (map JStr names)"
    and "featureData (get_own report ''model_metrics'') = Inr fd"
    and "column_rows (get_own report ''column_types'') (get_own report ''missing_counts'') = Inr trs"
  shows "\<exists>v. ReportView report = Inr v
      \<and> (length names = 0 \<longrightarrow> dropped_of v = Some NoColumnsDropped)
      \<and> (1 \<le> length names \<longrightarrow>
            (\<exists>lis. dropped_of v = Some (DroppedList lis) \<and> length lis = length names
                \<and> (\<forall>i < length names. lis ! i = JStr (names ! i))))"
proof -
  obtain series where fd: "fd = JArr series"
    using featureData_array [OF assms(3)] by blast
  have "list_all key_coercible (map JStr names)"
    by (simp add: list_all_iff)
  then have dp: "dropped_panel (get_own report ''dropped_columns'') =
      Inr (if map JStr names = [] then NoColumnsDropped else DroppedList (map JStr names))"
    by (simp only: assms(2) dropped_panel_array)
  have "ReportView report =
     Inr (Dashboard
       \<lparr> total_rows = get_own report ''rows'',
         total_columns = get_own report ''columns'',
         detected_target_text = js_or (get_own report ''detected_target'') (JStr ''None''),
         cleaned_file = get_own report ''cleaned_path'',
         model_path_text = get_own report ''model_path'' \<rparr>
       trs (if map JStr names = [] then NoColumnsDropped else DroppedList (map JStr names))
       (if series = [] then None else Some (JArr series)))"
    using assms(1) assms(3) [unfolded fd] assms(4) dp by (rule ReportView_renders)
  then show ?thesis
    by (cases "names = []") auto
qed

theorem dropped_columns_panel_witness:
  "(\<exists>v. ReportView report_trained = Inr v
        \<and> dropped_of v = Some (DroppedList [JStr ''id'', JStr ''notes'']))
   \<and> (\<exists>v. ReportView report_plain = Inr v \<and> dropped_of v = Some NoColumnsDropped)"
proof
  have names: "get_own report_trained ''dropped_columns'' = JArr (map JStr [''id'', ''notes''])"
    by (simp add: report_trained_def)
  have fd: "featureData (get_own report_trained ''model_metrics'') =
     Inr (JArr [JObj [(''name'', JStr ''a''), (''importance'', JNum (3 / 10))],
                JObj [(''name'', JStr ''b''), (''importance'', JNum (9 / 10))]])"
    by (simp only: report_trained_parts(2) featureData_metrics_ab)
  obtain v lis where v: "ReportView report_trained = Inr v"
      "dropped_of v = Some (DroppedList lis)" "length lis = 2"
      "\<forall>i < 2. lis ! i = JStr ([''id'', ''notes''] ! i)"
    using dropped_columns_panel_lists_in_order
      [OF report_trained_parts(1) names fd report_trained_parts(3)]
    by auto
  have "lis = [JStr ''id'', JStr ''notes'']"
    using v(3,4) by (intro nth_equalityI) (auto simp: less_Suc_eq numeral_2_eq_2)
  with v show "\<exists>v. ReportView report_trained = Inr v
        \<and> dropped_of v = Some (DroppedList [JStr ''id'', JStr ''notes''])"
    by simp
next
  have names: "get_own report_plain ''dropped_columns'' = JArr (map JStr [])"
    by (simp add: report_plain_def)
  show "\<exists>v. ReportView report_plain = Inr v \<and> dropped_of v = Some NoColumnsDropped"
    using dropped_columns_panel_lists_in_order
      [OF report_plain_parts(1) names report_plain_parts(2,3)]
    by simp
qed

text \<open>
  C8, as stated, fails. \<open>report_no_dropped\<close> is a present report with all five
  summary fields, but without \<^verbatim>\<open>dropped_columns\<close>: line 76 raises, no view is
  returned and so the summary card is not rendered.
\<close>

theorem summary_panel_counterexample:
  "truthy report_no_dropped
   \<and> get_own report_no_dropped ''rows'' = JNum 100
   \<and> get_own report_no_dropped ''columns'' = JNum 5
   \<and> get_own report_no_dropped ''detected_target'' = JNull
   \<and> get_own report_no_dropped ''cleaned_path'' = JStr ''x.csv''
   \<and> get_own report_no_dropped ''model_path'' = JStr ''m.pkl''
   \<and> ReportView report_no_dropped = Inl TypeError"
  using ReportView_no_dropped [OF report_no_dropped_parts(1)]
  by (simp add: report_no_dropped_parts(2)) (simp add: report_no_dropped_def)

text \<open>
  C8, amended. For every present report, a view is returned exactly when the feature
  series, the rows of the column table and the dropped-columns card are each computed
  without a fault (so not, for instance, when \<^verbatim>\<open>dropped_columns\<close> is absent). The
  view returned has the summary card. Its children are the values of \<^verbatim>\<open>rows\<close>,
  \<^verbatim>\<open>columns\<close>, \<^verbatim>\<open>cleaned_path\<close> and \<^verbatim>\<open>model_path\<close> as they are, and
  \<^verbatim>\<open>detected_target\<close> as it is when it is truthy, the string \<^verbatim>\<open>None\<close> when it is
  absent or falsy. No condition is put on the five fields: when the report has no
  \<^verbatim>\<open>cleaned_path\<close> or no \<^verbatim>\<open>model_path\<close>, the child is \<^verbatim>\<open>undefined\<close> and
  nothing is raised.
\<close>

theorem summary_panel_shows_fields:
  assumes "truthy report"
  shows "(\<forall>fd trs dp.
           featureData (get_own report ''model_metrics'') = Inr fd
           \<and> column_rows (get_own report ''column_types'') (get_own report ''missing_counts'') = Inr trs
           \<and> dropped_panel (get_own report ''dropped_columns'') = Inr dp
           \<longrightarrow> (\<exists>v s. ReportView report = Inr v \<and> summary_of v = Some s
                \<and> total_rows s = get_own report ''rows''
                \<and> total_columns s = get_own report ''columns''
                \<and> cleaned_file s = get_own report ''cleaned_path''
                \<and> model_path_text s = get_own report ''model_path''
                \<and> (truthy (get_own report ''detected_target'')
                      \<longrightarrow> detected_target_text s = get_own report ''detected_target'')
                \<and> (\<not> truthy (get_own report ''detected_target'')
                      \<longrightarrow> detected_target_text s = JStr ''None'')
                \<and> (\<forall>ps. report = JObj ps \<and> map_of ps ''cleaned_path'' = None
                      \<longrightarrow> cleaned_file s = JUndefined)
                \<and> (\<forall>ps. report = JObj ps \<and> map_of ps ''model_path'' = None
                      \<longrightarrow> model_path_text s = JUndefined)
                \<and> (\<forall>ps. report = JObj ps \<and> map_of ps ''detected_target'' = None
                      \<longrightarrow> detected_target_text s = JStr ''None'')))
     \<and> (\<forall>v. ReportView report = Inr v \<longrightarrow>
           (\<exists>fd trs dp.
              featureData (get_own report ''model_metrics'') = Inr fd
              \<and> column_rows (get_own report ''column_types'') (get_own report ''missing_counts'') = Inr trs
              \<and> dropped_panel (get_own report ''dropped_columns'') = Inr dp))"
proof (intro conjI allI impI)
  fix fd trs dp
  assume parts: "featureData (get_own report ''model_metrics'') = Inr fd
           \<and> column_rows (get_own report ''column_types'') (get_own report ''missing_counts'') = Inr trs
           \<and> dropped_panel (get_own report ''dropped_columns'') = Inr dp"
  then obtain series where fd: "fd = JArr series"
    using featureData_array by blast
  have "ReportView report =
     Inr (Dashboard
       \<lparr> total_rows = get_own report ''rows'',
         total_columns = get_own report ''columns'',
         detected_target_text = js_or (get_own report ''detected_target'') (JStr ''None''),
         cleaned_file = get_own report ''cleaned_path'',
         model_path_text = get_own report ''model_path'' \<rparr>
       trs dp (if series = [] then None else Some (JArr series)))"
    using assms parts fd by (intro ReportView_renders) simp_all
  then show "\<exists>v s. ReportView report = Inr v \<and> summary_of v = Some s
                \<and> total_rows s = get_own report ''rows''
                \<and> total_columns s = get_own report ''columns''
                \<and> cleaned_file s = get_own report ''cleaned_path''
                \<and> model_path_text s = get_own report ''model_path''
                \<and> (truthy (get_own report ''detected_target'')
                      \<longrightarrow> detected_target_text s = get_own report ''detected_target'')
                \<and> (\<not> truthy (get_own report ''detected_target'')
                      \<longrightarrow> detected_target_text s = JStr ''None'')
                \<and> (\<forall>ps. report = JObj ps \<and> map_of ps ''cleaned_path'' = None
                      \<longrightarrow> cleaned_file s = JUndefined)
                \<and> (\<forall>ps. report = JObj ps \<and> map_of ps ''model_path'' = None
                      \<longrightarrow> model_path_text s = JUndefined)
                \<and> (\<forall>ps. report = JObj ps \<and> map_of ps ''detected_target'' = None
                      \<longrightarrow> detected_target_text s = JStr ''None'')"
    by (auto simp: js_or_def)
next
  fix v
  assume "ReportView report = Inr v"
  from ReportView_returns [OF assms this]
  show "\<exists>fd trs dp.
              featureData (get_own report ''model_metrics'') = Inr fd
              \<and> column_rows (get_own report ''column_types'') (get_own report ''missing_counts'') = Inr trs
              \<and> dropped_panel (get_own report ''dropped_columns'') = Inr dp"
    by blast
qed

theorem summary_panel_witness:
  "(\<exists>v. ReportView report_plain = Inr v
      \<and> summary_of v = Some \<lparr> total_rows = JNum 100, total_columns = JNum 5,
           detected_target_text = JStr ''None'', cleaned_file = JStr ''x.csv'',
           model_path_text = JStr ''m.pkl'' \<rparr>)
   \<and> (\<exists>v. ReportView report_trained = Inr v
      \<and> summary_of v = Some \<lparr> total_rows = JNum 0, total_columns = JNum 2,
           detected_target_text = JStr ''age'', cleaned_file = JUndefined,
           model_path_text = JStr ''m.pkl'' \<rparr>)"
proof
  show "\<exists>v. ReportView report_plain = Inr v
      \<and> summary_of v = Some \<lparr> total_rows = JNum 100, total_columns = JNum 5,
           detected_target_text = JStr ''None'', cleaned_file = JStr ''x.csv'',
           model_path_text = JStr ''m.pkl'' \<rparr>"
    using summary_panel_shows_fields [OF report_plain_parts(1)] report_plain_parts(2,3,4)
    by (fastforce simp: report_plain_def)
next
  have fd: "featureData (get_own report_trained ''model_metrics'') =
     Inr (JArr [JObj [(''name'', JStr ''a''), (''importance'', JNum (3 / 10))],
                JObj [(''name'', JStr ''b''), (''importance'', JNum (9 / 10))]])"
    by (simp only: report_trained_parts(2) featureData_metrics_ab)
  show "\<exists>v. ReportView report_trained = Inr v
      \<and> summary_of v = Some \<lparr> total_rows = JNum 0, total_columns = JNum 2,
           detected_target_text = JStr ''age'', cleaned_file = JUndefined,
           model_path_text = JStr ''m.pkl'' \<rparr>"
    using summary_panel_shows_fields [OF report_trained_parts(1)] fd report_trained_parts(3,4)
    by (fastforce simp: report_trained_def)
qed


text \<open>
  C6, as stated, fails. In \<open>report_inherited\<close> the key \<^verbatim>\<open>constructor\<close> of
  \<^verbatim>\<open>column_types\<close> is absent from the (present) \<^verbatim>\<open>missing_counts\<close>; the read
  \<^verbatim>\<open>missing_counts[col]\<close> of line 64 finds the member every object inherits under
  that name, so the cell is not \<^verbatim>\<open>undefined\<close>. And \<open>report_gap_no_dropped\<close> has
  such a gap (key \<^verbatim>\<open>name\<close>) but no \<^verbatim>\<open>dropped_columns\<close>: line 76 raises and no
  row is rendered.
\<close>

theorem missing_count_gap_counterexample:
  "get_own report_inherited ''column_types'' = JObj [(''constructor'', JStr ''str'')]
   \<and> get_own report_inherited ''missing_counts'' = JObj []
   \<and> ReportView report_inherited =
       Inr (Dashboard
         \<lparr> total_rows = JNum 3, total_columns = JNum 1, detected_target_text = JStr ''None'',
           cleaned_file = JStr ''x.csv'', model_path_text = JStr ''m.pkl'' \<rparr>
         [\<lparr> col = ''constructor'', type_cell = Val (JStr ''str''),
            missing_cell = Inherited ''constructor'' \<rparr>]
         NoColumnsDropped None)
   \<and> get_own report_gap_no_dropped ''column_types'' =
       JObj [(''age'', JStr ''int''), (''name'', JStr ''str'')]
   \<and> get_own report_gap_no_dropped ''missing_counts'' = JObj [(''age'', JNum 0)]
   \<and> ReportView report_gap_no_dropped = Inl TypeError"
proof (intro conjI)
  show "ReportView report_inherited =
       Inr (Dashboard
         \<lparr> total_rows = JNum 3, total_columns = JNum 1, detected_target_text = JStr ''None'',
           cleaned_file = JStr ''x.csv'', model_path_text = JStr ''m.pkl'' \<rparr>
         [\<lparr> col = ''constructor'', type_cell = Val (JStr ''str''),
            missing_cell = Inherited ''constructor'' \<rparr>]
         NoColumnsDropped None)"
    using ReportView_renders [OF report_inherited_parts]
    by (simp add: report_inherited_def js_or_def)
  show "ReportView report_gap_no_dropped = Inl TypeError"
    using ReportView_no_dropped [OF report_gap_no_dropped_parts(1)]
    by (simp add: report_gap_no_dropped_parts(2))
qed (simp_all add: report_inherited_def report_gap_no_dropped_def)

text \<open>
  C6, amended. For every present report whose \<^verbatim>\<open>column_types\<close> and
  \<^verbatim>\<open>missing_counts\<close> are objects and whose feature series and dropped-columns card are
  computed without a fault (in particular \<^verbatim>\<open>dropped_columns\<close> is present): the
  component returns a view, nothing is raised, the table has one row per
  key of \<^verbatim>\<open>column_types\<close>, and the row of a key that \<^verbatim>\<open>missing_counts\<close> does not
  have is there with its type cell; its missing-count cell is \<^verbatim>\<open>undefined\<close>, unless the
  key is one of the names under which every object inherits a member
  (\<^verbatim>\<open>constructor\<close>, \<^verbatim>\<open>toString\<close>, \<^verbatim>\<open>valueOf\<close>, \<^verbatim>\<open>hasOwnProperty\<close>,
  \<^verbatim>\<open>isPrototypeOf\<close>, \<^verbatim>\<open>propertyIsEnumerable\<close>, \<^verbatim>\<open>toLocaleString\<close>,
  \<^verbatim>\<open>__proto__\<close>, \<^verbatim>\<open>__defineGetter__\<close>, \<^verbatim>\<open>__defineSetter__\<close>,
  \<^verbatim>\<open>__lookupGetter__\<close>, \<^verbatim>\<open>__lookupSetter__\<close>): then the cell holds that
  inherited member.
\<close>

theorem missing_count_gap_renders_blank:
  assumes "truthy report"
    and "get_own report ''column_types'' = JObj cts"
    and "get_own report ''missing_counts'' = JObj mcs"
    and "k \<in> fst ` set cts" and "k \<notin> fst ` set mcs"
    and "featureData (get_own report ''model_metrics'') = Inr fd"
    and "dropped_panel (get_own report ''dropped_columns'') = Inr dp"
  shows "\<exists>v s trs t. ReportView report = Inr v
      \<and> summary_of v = Some s \<and> table_of v = Some trs \<and> dropped_of v = Some dp
      \<and> length trs = length cts
      \<and> map_of cts k = Some t
      \<and> \<lparr> col = k, type_cell = Val t,
           missing_cell = (if k \<in> set object_prototype_names then Inherited k else Val JUndefined) \<rparr>
          \<in> set trs"
proof -
  obtain series where fd: "fd = JArr series"
    using featureData_array [OF assms(6)] by blast
  let ?row = "\<lambda>c. \<lparr> col = c, type_cell = lookup (JObj cts) c, missing_cell = lookup (JObj mcs) c \<rparr>"
  have rows: "column_rows (get_own report ''column_types'') (get_own report ''missing_counts'')
      = Inr (map ?row (own_keys cts))"
    by (simp only: assms(2,3)) (simp add: column_rows_object)
  obtain t where t: "map_of cts k = Some t"
    using assms(4) by (cases "map_of cts k") (auto simp: map_of_eq_None_iff)
  have "map_of mcs k = None"
    using assms(5) by (simp add: map_of_eq_None_iff)
  then have "?row k = \<lparr> col = k, type_cell = Val t,
      missing_cell = (if k \<in> set object_prototype_names then Inherited k else Val JUndefined) \<rparr>"
    using t by (simp add: lookup_own lookup_gap)
  moreover have "k \<in> set (own_keys cts)"
    using assms(4) by (simp add: set_own_keys)
  ultimately have "\<lparr> col = k, type_cell = Val t,
      missing_cell = (if k \<in> set object_prototype_names then Inherited k else Val JUndefined) \<rparr>
      \<in> set (map ?row (own_keys cts))"
    by (metis (no_types, lifting) image_eqI set_map)
  moreover have "ReportView report =
     Inr (Dashboard
       \<lparr> total_rows = get_own report ''rows'',
         total_columns = get_own report ''columns'',
         detected_target_text = js_or (get_own report ''detected_target'') (JStr ''None''),
         cleaned_file = get_own report ''cleaned_path'',
         model_path_text = get_own report ''model_path'' \<rparr>
       (map ?row (own_keys cts)) dp (if series = [] then None else Some (JArr series)))"
    using assms(1) assms(6) [unfolded fd] rows assms(7) by (rule ReportView_renders)
  ultimately show ?thesis
    using t by (simp add: length_own_keys)
qed

theorem missing_count_gap_witness:
  "(\<exists>v trs. ReportView report_trained = Inr v \<and> table_of v = Some trs
      \<and> dropped_of v = Some (DroppedList [JStr ''id'', JStr ''notes''])
      \<and> \<lparr> col = ''name'', type_cell = Val (JStr ''str''), missing_cell = Val JUndefined \<rparr>
          \<in> set trs)
   \<and> (\<exists>v trs. ReportView report_inherited = Inr v \<and> table_of v = Some trs
      \<and> \<lparr> col = ''constructor'', type_cell = Val (JStr ''str''),
           missing_cell = Inherited ''constructor'' \<rparr> \<in> set trs)"
proof
  have cts: "get_own report_trained ''column_types'' =
      JObj [(''age'', JStr ''int''), (''name'', JStr ''str'')]"
    and mcs: "get_own report_trained ''missing_counts'' = JObj [(''age'', JNum 0)]"
    by (simp_all add: report_trained_def)
  have k: "''name'' \<in> fst ` set [(''age'', JStr ''int''), (''name'', JStr ''str'')]"
    "''name'' \<notin> fst ` set [(''age'', JNum 0)]"
    by simp_all
  have fd: "featureData (get_own report_trained ''model_metrics'') =
     Inr (JArr [JObj [(''name'', JStr ''a''), (''importance'', JNum (3 / 10))],
                JObj [(''name'', JStr ''b''), (''importance'', JNum (9 / 10))]])"
    by (simp only: report_trained_parts(2) featureData_metrics_ab)
  show "\<exists>v trs. ReportView report_trained = Inr v \<and> table_of v = Some trs
      \<and> dropped_of v = Some (DroppedList [JStr ''id'', JStr ''notes''])
      \<and> \<lparr> col = ''name'', type_cell = Val (JStr ''str''), missing_cell = Val JUndefined \<rparr>
          \<in> set trs"
    using missing_count_gap_renders_blank
      [OF report_trained_parts(1) cts mcs k fd report_trained_parts(4)]
    by (fastforce simp: object_prototype_names_def)
next
  have cts: "get_own report_inherited ''column_types'' = JObj [(''constructor'', JStr ''str'')]"
    and mcs: "get_own report_inherited ''missing_counts'' = JObj []"
    by (simp_all add: report_inherited_def)
  have k: "''constructor'' \<in> fst ` set [(''constructor'', JStr ''str'')]"
    "''constructor'' \<notin> fst ` set ([] :: (string \<times> jsval) list)"
    by simp_all
  show "\<exists>v trs. ReportView report_inherited = Inr v \<and> table_of v = Some trs
      \<and> \<lparr> col = ''constructor'', type_cell = Val (JStr ''str''),
           missing_cell = Inherited ''constructor'' \<rparr> \<in> set trs"
    using missing_count_gap_renders_blank
      [OF report_inherited_parts(1) cts mcs k report_inherited_parts(2,4)]
    by (fastforce simp: object_prototype_names_def)
qed

text \<open>
  C5, as stated, fails. In \<open>report_numbered\<close> the members of \<^verbatim>\<open>column_types\<close>
  were created in the order \<^verbatim>\<open>b\<close>, \<^verbatim>\<open>1\<close>; \<^verbatim>\<open>Object.keys\<close> lists the
  array index \<^verbatim>\<open>1\<close> first, so the table's rows are \<^verbatim>\<open>1\<close>, \<^verbatim>\<open>b\<close>. And
  \<open>report_no_dropped\<close> is a present report whose \<^verbatim>\<open>column_types\<close> has the key
  \<^verbatim>\<open>age\<close>, but line 76 raises and no table is rendered.
\<close>

theorem column_table_order_counterexample:
  "get_own report_numbered ''column_types'' = JObj [(''b'', JStr ''int''), (''1'', JStr ''str'')]
   \<and> ReportView report_numbered =
       Inr (Dashboard
         \<lparr> total_rows = JNum 3, total_columns = JNum 2, detected_target_text = JStr ''None'',
           cleaned_file = JStr ''x.csv'', model_path_text = JStr ''m.pkl'' \<rparr>
         [\<lparr> col = ''1'', type_cell = Val (JStr ''str''), missing_cell = Val (JNum 2) \<rparr>,
          \<lparr> col = ''b'', type_cell = Val (JStr ''int''), missing_cell = Val (JNum 0) \<rparr>]
         NoColumnsDropped None)
   \<and> get_own report_no_dropped ''column_types'' = JObj [(''age'', JStr ''int'')]
   \<and> ReportView report_no_dropped = Inl TypeError"
proof (intro conjI)
  show "ReportView report_numbered =
       Inr (Dashboard
         \<lparr> total_rows = JNum 3, total_columns = JNum 2, detected_target_text = JStr ''None'',
           cleaned_file = JStr ''x.csv'', model_path_text = JStr ''m.pkl'' \<rparr>
         [\<lparr> col = ''1'', type_cell = Val (JStr ''str''), missing_cell = Val (JNum 2) \<rparr>,
          \<lparr> col = ''b'', type_cell = Val (JStr ''int''), missing_cell = Val (JNum 0) \<rparr>]
         NoColumnsDropped None)"
    using ReportView_renders [OF report_numbered_parts]
    by (simp add: report_numbered_def js_or_def)
  show "ReportView report_no_dropped = Inl TypeError"
    using ReportView_no_dropped [OF report_no_dropped_parts(1)]
    by (simp add: report_no_dropped_parts(2))
qed (simp_all add: report_numbered_def report_no_dropped_def)

text \<open>
  C5, amended. For every present report whose \<^verbatim>\<open>column_types\<close> is an object (no key
  twice), whose \<^verbatim>\<open>missing_counts\<close> is present and whose feature series and
  dropped-columns card are computed without a fault (in particular
  \<^verbatim>\<open>dropped_columns\<close> is present): the component returns a view whose table has exactly
  one row per key of \<^verbatim>\<open>column_types\<close>, holding the key, the key's value in
  \<^verbatim>\<open>column_types\<close> and \<^verbatim>\<open>missing_counts[key]\<close>, in the order of
  \<^verbatim>\<open>Object.keys\<close>: the keys that are array indices first, in ascending numeric order,
  then all other keys in the order of their creation. When no key is an array index this
  is the order of creation. The rows are determined by \<^verbatim>\<open>column_types\<close> and
  \<^verbatim>\<open>missing_counts\<close> alone, whatever \<^verbatim>\<open>rows\<close> and \<^verbatim>\<open>columns\<close> hold; an empty
  \<^verbatim>\<open>column_types\<close> gives no row.
\<close>

theorem column_table_rows_in_key_order:
  assumes "truthy report"
    and "get_own report ''column_types'' = JObj cts"
    and "distinct (map fst cts)"
    and "\<not> nullish (get_own report ''missing_counts'')"
    and "featureData (get_own report ''model_metrics'') = Inr fd"
    and "dropped_panel (get_own report ''dropped_columns'') = Inr dp"
  shows "\<exists>v trs. ReportView report = Inr v \<and> table_of v = Some trs
      \<and> trs = map (\<lambda>c. \<lparr> col = c, type_cell = lookup (JObj cts) c,
                             missing_cell = lookup (get_own report ''missing_counts'') c \<rparr>)
                  (own_keys cts)
      \<and> length trs = length cts \<and> distinct (map col trs) \<and> set (map col trs) = fst ` set cts
      \<and> (\<forall>r \<in> set trs. \<exists>t. map_of cts (col r) = Some t \<and> type_cell r = Val t)
      \<and> map col trs = own_keys cts
      \<and> map col trs = filter is_index (map col trs) @ filter (\<lambda>k. \<not> is_index k) (map col trs)
      \<and> sorted (map index_val (filter is_index (map col trs)))
      \<and> filter (\<lambda>k. \<not> is_index k) (map col trs) = filter (\<lambda>k. \<not> is_index k) (map fst cts)
      \<and> ((\<forall>k \<in> fst ` set cts. \<not> is_index k) \<longrightarrow> map col trs = map fst cts)"
proof -
  obtain series where fd: "fd = JArr series"
    using featureData_array [OF assms(5)] by blast
  let ?mcs = "get_own report ''missing_counts''"
  let ?row = "\<lambda>c. \<lparr> col = c, type_cell = lookup (JObj cts) c, missing_cell = lookup ?mcs c \<rparr>"
  let ?trs = "map ?row (own_keys cts)"
  have rows: "column_rows (get_own report ''column_types'') ?mcs = Inr ?trs"
    using assms(4) by (simp only: assms(2)) (simp add: column_rows_object)
  have view: "ReportView report =
     Inr (Dashboard
       \<lparr> total_rows = get_own report ''rows'',
         total_columns = get_own report ''columns'',
         detected_target_text = js_or (get_own report ''detected_target'') (JStr ''None''),
         cleaned_file = get_own report ''cleaned_path'',
         model_path_text = get_own report ''model_path'' \<rparr>
       ?trs dp (if series = [] then None else Some (JArr series)))"
    using assms(1) assms(5) [unfolded fd] rows assms(6) by (rule ReportView_renders)
  have cols: "map col ?trs = own_keys cts"
    by (simp add: comp_def)
  have split: "own_keys cts = filter is_index (own_keys cts) @ filter (\<lambda>k. \<not> is_index k) (own_keys cts)"
    by (simp add: filter_index_own_keys filter_other_own_keys) (simp add: own_keys_def)
  have plain: "own_keys cts = map fst cts" if "\<forall>k \<in> fst ` set cts. \<not> is_index k"
    using that by (intro own_keys_no_index) blast
  have cells: "\<forall>r \<in> set ?trs. \<exists>t. map_of cts (col r) = Some t \<and> type_cell r = Val t"
  proof
    fix r
    assume "r \<in> set ?trs"
    then obtain c where c: "c \<in> set (own_keys cts)" "r = ?row c"
      by auto
    then have "c \<in> fst ` set cts"
      by (simp add: set_own_keys)
    then obtain t where "map_of cts c = Some t"
      by (cases "map_of cts c") (auto simp: map_of_eq_None_iff)
    with c(2) show "\<exists>t. map_of cts (col r) = Some t \<and> type_cell r = Val t"
      by (simp add: lookup_own)
  qed
  have "table_of (Dashboard
       \<lparr> total_rows = get_own report ''rows'',
         total_columns = get_own report ''columns'',
         detected_target_text = js_or (get_own report ''detected_target'') (JStr ''None''),
         cleaned_file = get_own report ''cleaned_path'',
         model_path_text = get_own report ''model_path'' \<rparr>
       ?trs dp (if series = [] then None else Some (JArr series))) = Some ?trs"
    by simp
  moreover have "length ?trs = length cts"
    by (simp add: length_own_keys)
  moreover have "distinct (map col ?trs)"
    using assms(3) by (simp only: cols distinct_own_keys)
  moreover have "set (map col ?trs) = fst ` set cts"
    by (simp only: cols set_own_keys)
  moreover have "map col ?trs = filter is_index (map col ?trs) @ filter (\<lambda>k. \<not> is_index k) (map col ?trs)"
    using split by (simp only: cols)
  moreover have "sorted (map index_val (filter is_index (map col ?trs)))"
    by (simp only: cols sorted_index_own_keys)
  moreover have "filter (\<lambda>k. \<not> is_index k) (map col ?trs) = filter (\<lambda>k. \<not> is_index k) (map fst cts)"
    by (simp only: cols filter_other_own_keys)
  moreover have "(\<forall>k \<in> fst ` set cts. \<not> is_index k) \<longrightarrow> map col ?trs = map fst cts"
    using plain by (simp only: cols) blast
  ultimately show ?thesis
    using view cells cols by blast
qed

theorem column_table_rows_witness:
  "(\<exists>v trs. ReportView report_numbered = Inr v \<and> table_of v = Some trs
       \<and> map col trs = [''1'', ''b''])
   \<and> (\<exists>v trs. ReportView report_trained = Inr v \<and> table_of v = Some trs
       \<and> map col trs = [''age'', ''name''])"
proof
  have cts: "get_own report_numbered ''column_types'' = JObj [(''b'', JStr ''int''), (''1'', JStr ''str'')]"
    and mcs: "\<not> nullish (get_own report_numbered ''missing_counts'')"
    by (simp_all add: report_numbered_def)
  have keys: "own_keys [(''b'', JStr ''int''), (''1'', JStr ''str'')] = [''1'', ''b'']"
    by (simp add: own_keys_def is_index_def array_index_def digit_val_def index_val_def)
  show "\<exists>v trs. ReportView report_numbered = Inr v \<and> table_of v = Some trs
       \<and> map col trs = [''1'', ''b'']"
    using column_table_rows_in_key_order
      [OF report_numbered_parts(1) cts _ mcs report_numbered_parts(2,4)] keys
    by fastforce
next
  have cts: "get_own report_trained ''column_types'' = JObj [(''age'', JStr ''int''), (''name'', JStr ''str'')]"
    and mcs: "\<not> nullish (get_own report_trained ''missing_counts'')"
    by (simp_all add: report_trained_def)
  have keys: "own_keys [(''age'', JStr ''int''), (''name'', JStr ''str'')] = [''age'', ''name'']"
    by (simp add: own_keys_def is_index_def array_index_def digit_val_def index_val_def)
  have fd: "featureData (get_own report_trained ''model_metrics'') =
     Inr (JArr [JObj [(''name'', JStr ''a''), (''importance'', JNum (3 / 10))],
                JObj [(''name'', JStr ''b''), (''importance'', JNum (9 / 10))]])"
    by (simp only: report_trained_parts(2) featureData_metrics_ab)
  show "\<exists>v trs. ReportView report_trained = Inr v \<and> table_of v = Some trs
       \<and> map col trs = [''age'', ''name'']"
    using column_table_rows_in_key_order
      [OF report_trained_parts(1) cts _ mcs fd report_trained_parts(4)] keys
    by fastforce
qed

text \<open>
  C4, as stated, fails. \<open>report_no_dropped\<close> is a present report without
  \<^verbatim>\<open>dropped_columns\<close>: the read \<^verbatim>\<open>dropped_columns.length\<close> raises a
  \<^verbatim>\<open>TypeError\<close>, and the component returns no view.
\<close>

theorem absent_dropped_columns_counterexample:
  "truthy report_no_dropped
   \<and> get_own report_no_dropped ''dropped_columns'' = JUndefined
   \<and> ReportView report_no_dropped = Inl TypeError"
  by (simp add: report_no_dropped_def ReportView_def destructure_def featureData_def js_or_def
      column_rows_def column_row_def member_def lookup_def own_keys_def is_index_def
      array_index_def digit_val_def dropped_panel_def get_def)

text \<open>
  C4, amended. The component gives \<^verbatim>\<open>dropped_columns\<close> no default: for every
  present report in which \<^verbatim>\<open>dropped_columns\<close> is absent (\<^verbatim>\<open>undefined\<close>) or
  \<^verbatim>\<open>null\<close>, rendering raises a \<^verbatim>\<open>TypeError\<close> and returns no view, whatever the
  other fields hold.
\<close>

theorem absent_dropped_columns_raises:
  assumes "truthy report" and "nullish (get_own report ''dropped_columns'')"
  shows "ReportView report = Inl TypeError"
  using assms by (rule ReportView_no_dropped)

theorem absent_dropped_columns_witness:
  "ReportView report_no_dropped = Inl TypeError
   \<and> ReportView (JObj [(''column_types'', JObj []), (''dropped_columns'', JNull)]) = Inl TypeError"
  using absent_dropped_columns_raises [OF report_no_dropped_parts(1)]
    absent_dropped_columns_raises [of "JObj [(''column_types'', JObj []), (''dropped_columns'', JNull)]"]
  by (simp add: report_no_dropped_parts(2))

text \<open>
  C9. Two invocations whose report inputs hold the same tree \<open>j\<close>, in any two stores
  (for instance the second invocation running in the store the first one left), return
  outputs that hold the same tree, the value \<open>ReportView j\<close> of the function of the
  report alone: what else the stores contain, and what earlier invocations left there,
  has no influence. Neither invocation changes a cell that existed before it (the store
  after is the store before with new cells appended), so the report holds the same tree
  afterwards, and the data of the chart is a cell created by this invocation, never the
  report's own array and never one kept from an earlier render.
\<close>

theorem rendering_is_pure:
  assumes "Rep h v j" and "Rep g w j"
    and "ReportView_h v h = (out1, h')" and "ReportView_h w g = (out2, g')"
  shows "RepOut h' out1 (ReportView j) \<and> RepOut g' out2 (ReportView j)
     \<and> prefix h h' \<and> prefix g g' \<and> Rep h' v j \<and> Rep g' w j
     \<and> (\<forall>s trs dp d. out1 = Inr (HDashboard s trs dp (Some d)) \<longrightarrow>
           (\<exists>a. d = HRef a \<and> length h \<le> a))
     \<and> (\<forall>s trs dp d. out2 = Inr (HDashboard s trs dp (Some d)) \<longrightarrow>
           (\<exists>a. d = HRef a \<and> length g \<le> a))"
proof -
  note first = ReportView_h_refines [OF assms(1,3)]
  note second = ReportView_h_refines [OF assms(2,4)]
  have "Rep h' v j"
    using assms(1) first by (blast intro: Rep_prefix)
  moreover have "Rep g' w j"
    using assms(2) second by (blast intro: Rep_prefix)
  ultimately show ?thesis
    using first second by blast
qed

theorem rendering_is_pure_witness:
  "ReportView_h (HRef 6) store_charted = (Inr (view_charted 8), store_charted @ series_cells 7)
   \<and> ReportView_h (HRef 6) (store_charted @ series_cells 7) =
       (Inr (view_charted 10), (store_charted @ series_cells 7) @ series_cells 9)
   \<and> RepOut (store_charted @ series_cells 7) (Inr (view_charted 8)) (ReportView report_charted)
   \<and> RepOut ((store_charted @ series_cells 7) @ series_cells 9) (Inr (view_charted 10))
       (ReportView report_charted)
   \<and> Rep ((store_charted @ series_cells 7) @ series_cells 9) (HRef 6) report_charted"
proof -
  have again: "Rep (store_charted @ series_cells 7) (HRef 6) report_charted"
    using Rep_charted by (rule Rep_prefix) simp
  show ?thesis
    using rendering_is_pure [OF Rep_charted again run_charted run_charted_again]
      run_charted run_charted_again
    by simp
qed

end
